theory Spec2Isabelle
  imports Main "HOL-Library.Sublist"
begin

section \<open>JavaScript strings and truthiness\<close>

text \<open>
  Names, kind tags and paths are JavaScript strings. The model uses \<open>string\<close>; the
  operations below are the ones \<^verbatim>\<open>mcp-server.js\<close> applies to them.
  \<^item> \<^verbatim>\<open>s.includes(p)\<close>: \<open>p\<close> occurs in \<open>s\<close> as a contiguous block;
  \<^item> \<^verbatim>\<open>s.startsWith(p)\<close>, \<^verbatim>\<open>s.endsWith(p)\<close>;
  \<^item> \<^verbatim>\<open>s.replace(p, '')\<close> with a string pattern: the first occurrence of \<open>p\<close> is removed;
  \<^item> \<^verbatim>\<open>s.toLowerCase()\<close>: the lower-casing of the JavaScript engine, which follows the
    Unicode case mappings and may change the length of a string. It is no code of
    \<^verbatim>\<open>mcp-server.js\<close>; the search below takes it as its parameter \<open>lower\<close>.
\<close>

definition str_includes :: "string \<Rightarrow> string \<Rightarrow> bool" where
  "str_includes s p = sublist p s"

definition startsWith :: "string \<Rightarrow> string \<Rightarrow> bool" where
  "startsWith s p = prefix p s"

definition endsWith :: "string \<Rightarrow> string \<Rightarrow> bool" where
  "endsWith s p = suffix p s"

fun replace_first :: "string \<Rightarrow> string \<Rightarrow> string" where
  "replace_first p [] = []"
| "replace_first p (c # cs) =
     (if prefix p (c # cs) then drop (length p) (c # cs) else c # replace_first p cs)"

text \<open>
  An optional tag is \<open>None\<close> when the key is absent (or null). A test such as
  \<^verbatim>\<open>if (kind && name)\<close> also rejects the empty string.
\<close>

definition truthy :: "string option \<Rightarrow> bool" where
  "truthy v = (case v of None \<Rightarrow> False | Some s \<Rightarrow> s \<noteq> [])"

section \<open>The normalized symbol model\<close>

text \<open>
  The \<^verbatim>\<open>info\<close> object pushed by both extractors. \<open>kind\<close> is the raw kind tag,
  \<open>len\<close> is the field \<^verbatim>\<open>length\<close>, and \<open>extendedType\<close> is only set on extensions.
\<close>

record symbol_info =
  name :: string
  kind :: string
  "file" :: string
  inheritedTypes :: "string list"
  accessibility :: "string option"
  typeName :: "string option"
  offset :: "int option"
  len :: "int option"
  extendedType :: "string option"

record symbol_table =
  classes :: "symbol_info list"
  structs :: "symbol_info list"
  protocols :: "symbol_info list"
  "functions" :: "symbol_info list"
  enums :: "symbol_info list"
  extensions :: "symbol_info list"
  variables :: "symbol_info list"

definition no_symbols :: symbol_table where
  "no_symbols = \<lparr>classes = [], structs = [], protocols = [], functions = [], enums = [],
     extensions = [], variables = []\<rparr>"

section \<open>Shape A: SourceKitten structure trees\<close>

text \<open>
  A node is a JSON object with optional tags. \<^verbatim>\<open>key.inheritedtypes\<close> is a list
  of objects of which only \<^verbatim>\<open>key.name\<close> is read, so it is kept as the list of these
  names; an absent \<^verbatim>\<open>key.substructure\<close> is read as \<^verbatim>\<open>[]\<close> and is the empty list here.
  The tags are strings, as SourceKitten writes them, and every child is a node: the guard
  \<^verbatim>\<open>if (!node) return\<close> of the walks has no counterpart for this type.
\<close>

datatype sk_node = SKNode
  (key_kind: "string option")
  (key_name: "string option")
  (key_inheritedtypes: "string list option")
  (key_accessibility: "string option")
  (key_typename: "string option")
  (key_offset: "int option")
  (key_length: "int option")
  (key_substructure: "sk_node list")

definition swift_access :: "string option \<Rightarrow> string option" where
  "swift_access a = map_option (replace_first ''source.lang.swift.accessibility.'') a"

definition sk_info :: "string \<Rightarrow> string \<Rightarrow> string \<Rightarrow> sk_node \<Rightarrow> symbol_info" where
  "sk_info filePath k n node =
     \<lparr>name = n,
      kind = k,
      file = filePath,
      inheritedTypes = (case key_inheritedtypes node of None \<Rightarrow> [] | Some ts \<Rightarrow> ts),
      accessibility = swift_access (key_accessibility node),
      typeName = key_typename node,
      offset = key_offset node,
      len = key_length node,
      extendedType = None\<rparr>"

text \<open>
  \<open>classify\<close> is the body of \<^verbatim>\<open>extractSymbols.walk\<close> up to the loop over the children:
  the guard \<^verbatim>\<open>if (kind && name)\<close> and the chain of \<^verbatim>\<open>if / else if\<close> on the kind tag.
\<close>

definition classify :: "string \<Rightarrow> sk_node \<Rightarrow> symbol_table \<Rightarrow> symbol_table" where
  "classify filePath node s =
     (case (key_kind node, key_name node) of
        (Some k, Some n) \<Rightarrow>
          if k \<noteq> [] \<and> n \<noteq> [] then
            (let info = sk_info filePath k n node in
             if str_includes k ''class'' then s\<lparr>classes := classes s @ [info]\<rparr>
             else if str_includes k ''struct'' then s\<lparr>structs := structs s @ [info]\<rparr>
             else if str_includes k ''protocol'' then s\<lparr>protocols := protocols s @ [info]\<rparr>
             else if str_includes k ''enum'' then s\<lparr>enums := enums s @ [info]\<rparr>
             else if str_includes k ''extension''
               then s\<lparr>extensions := extensions s @ [info\<lparr>extendedType := Some n\<rparr>]\<rparr>
             else if str_includes k ''function'' \<or> str_includes k ''method''
               then s\<lparr>functions := functions s @ [info]\<rparr>
             else if str_includes k ''var'' then s\<lparr>variables := variables s @ [info]\<rparr>
             else s)
          else s
      | _ \<Rightarrow> s)"

fun walk :: "string \<Rightarrow> sk_node \<Rightarrow> symbol_table \<Rightarrow> symbol_table" where
  "walk filePath (SKNode k n i a t off l subs) s =
     fold (walk filePath) subs (classify filePath (SKNode k n i a t off l subs) s)"

definition extractSymbols :: "sk_node \<Rightarrow> string \<Rightarrow> symbol_table" where
  "extractSymbols ast filePath = walk filePath ast no_symbols"

subsection \<open>Member extraction\<close>

text \<open>
  A member entry is \<^verbatim>\<open>{name, type, access}\<close> for a property and
  \<^verbatim>\<open>{name, returnType, access}\<close> for a method; \<open>m_type\<close> holds \<^verbatim>\<open>type\<close> or
  \<^verbatim>\<open>returnType\<close>. A Shape A initializer is \<^verbatim>\<open>{name, access}\<close> and has no type.
\<close>

record member_info =
  m_name :: string
  m_type :: "string option"
  m_access :: "string option"

record members =
  properties :: "member_info list"
  methods :: "member_info list"
  initializers :: "member_info list"

definition no_members :: members where
  "no_members = \<lparr>properties = [], methods = [], initializers = []\<rparr>"

definition or_empty :: "string option \<Rightarrow> string" where
  "or_empty v = (case v of None \<Rightarrow> [] | Some s \<Rightarrow> s)"

text \<open>One round of the loop over the direct children in \<^verbatim>\<open>findAndExtractMembers\<close>.\<close>

definition add_member :: "sk_node \<Rightarrow> members \<Rightarrow> members" where
  "add_member m ms =
     (let memberKind = or_empty (key_kind m);
          memberName = or_empty (key_name m);
          ty = key_typename m;
          access = swift_access (key_accessibility m) in
      if str_includes memberKind ''function'' \<or> str_includes memberKind ''method'' then
        (if startsWith memberName ''init''
         then ms\<lparr>initializers := initializers ms @
                [\<lparr>m_name = memberName, m_type = None, m_access = access\<rparr>]\<rparr>
         else ms\<lparr>methods := methods ms @
                [\<lparr>m_name = memberName, m_type = ty, m_access = access\<rparr>]\<rparr>)
      else if str_includes memberKind ''var'' then
        ms\<lparr>properties := properties ms @
             [\<lparr>m_name = memberName, m_type = ty, m_access = access\<rparr>]\<rparr>
      else ms)"

fun findAndExtractMembers :: "sk_node \<Rightarrow> string \<Rightarrow> members option"
  and find_in_children :: "sk_node list \<Rightarrow> string \<Rightarrow> members option" where
  "findAndExtractMembers (SKNode k n i a t off l subs) symbolName =
     (if truthy k \<and> truthy n \<and> n = Some symbolName
      then Some (fold add_member subs no_members)
      else find_in_children subs symbolName)"
| "find_in_children [] symbolName = None"
| "find_in_children (c # cs) symbolName =
     (case findAndExtractMembers c symbolName of
        Some r \<Rightarrow> Some r
      | None \<Rightarrow> find_in_children cs symbolName)"

section \<open>Shape B: Clang JSON trees\<close>

text \<open>
  \<open>clang_ref\<close> is a reference object \<^verbatim>\<open>{id, name}\<close> as found under \<^verbatim>\<open>super\<close>,
  \<^verbatim>\<open>protocols\<close> and \<^verbatim>\<open>interface\<close>. In a node, \<open>cl_returnType\<close> and \<open>cl_type\<close> are
  \<^verbatim>\<open>returnType.qualType\<close> and \<^verbatim>\<open>type.qualType\<close>, \<open>cl_loc\<close> is \<^verbatim>\<open>loc.offset\<close>, and
  \<open>cl_begin\<close>, \<open>cl_end\<close> are \<^verbatim>\<open>range.begin.offset\<close> and \<^verbatim>\<open>range.end.offset\<close>.
\<close>

datatype clang_ref = ClangRef (ref_id: "string option") (ref_name: "string option")

datatype clang_node = ClangNode
  (cl_kind: "string option")
  (cl_name: "string option")
  (cl_isImplicit: bool)
  (cl_super: "clang_ref option")
  (cl_protocols: "clang_ref list option")
  (cl_interface: "clang_ref option")
  (cl_loc: "int option")
  (cl_begin: "int option")
  (cl_end: "int option")
  (cl_returnType: "string option")
  (cl_type: "string option")
  (cl_inner: "clang_node list")

definition CLANG_NULL_POINTER :: string where
  "CLANG_NULL_POINTER = ''0x0''"

definition calculateRangeLength :: "int option \<Rightarrow> int option \<Rightarrow> int option" where
  "calculateRangeLength b e =
     (case (b, e) of (Some x, Some y) \<Rightarrow> Some (y - x) | _ \<Rightarrow> None)"

definition objc_access :: "string \<Rightarrow> string" where
  "objc_access filePath = (if endsWith filePath ''.h'' then ''public'' else ''internal'')"

definition super_names :: "clang_ref option \<Rightarrow> string list" where
  "super_names sp =
     (case sp of
        None \<Rightarrow> []
      | Some r \<Rightarrow>
          if ref_id r \<noteq> Some CLANG_NULL_POINTER \<and> truthy (ref_name r)
          then [or_empty (ref_name r)] else [])"

definition protocol_names :: "clang_ref list option \<Rightarrow> string list" where
  "protocol_names ps =
     (case ps of
        None \<Rightarrow> []
      | Some rs \<Rightarrow> map (\<lambda>r. or_empty (ref_name r)) (filter (\<lambda>r. truthy (ref_name r)) rs))"

definition objc_info ::
  "string \<Rightarrow> string \<Rightarrow> string \<Rightarrow> string list \<Rightarrow> clang_node \<Rightarrow> symbol_info" where
  "objc_info filePath n k inh node =
     \<lparr>name = n,
      kind = k,
      file = filePath,
      inheritedTypes = inh,
      accessibility = Some (objc_access filePath),
      typeName = None,
      offset = cl_loc node,
      len = calculateRangeLength (cl_begin node) (cl_end node),
      extendedType = None\<rparr>"

text \<open>
  The three \<^verbatim>\<open>if\<close> blocks of \<^verbatim>\<open>extractObjCSymbols.walk\<close> in their order. The category
  block leaves the function (\<^verbatim>\<open>return\<close>) when the interface name is missing, so the
  children of such a category are not visited.
\<close>

fun walk_objc :: "string \<Rightarrow> clang_node \<Rightarrow> symbol_table \<Rightarrow> symbol_table" where
  "walk_objc filePath (ClangNode k n imp sp ps iface off b e rt ty inner) s =
     (let node = ClangNode k n imp sp ps iface off b e rt ty inner;
          s1 = (if k = Some ''ObjCInterfaceDecl'' \<and> truthy n \<and> \<not> imp
                then s\<lparr>classes := classes s @
                       [objc_info filePath (or_empty n) ''source.lang.objc.decl.class''
                          (super_names sp @ protocol_names ps) node]\<rparr>
                else s);
          s2 = (if k = Some ''ObjCProtocolDecl'' \<and> truthy n \<and> \<not> imp
                then s1\<lparr>protocols := protocols s1 @
                       [objc_info filePath (or_empty n) ''source.lang.objc.decl.protocol''
                          (protocol_names ps) node]\<rparr>
                else s1) in
      if k = Some ''ObjCCategoryDecl'' \<and> truthy n \<and> \<not> imp then
        (if truthy (case iface of None \<Rightarrow> None | Some r \<Rightarrow> ref_name r) then
           (let interfaceName = or_empty (case iface of None \<Rightarrow> None | Some r \<Rightarrow> ref_name r);
                categoryName = interfaceName @ ''('' @ or_empty n @ '')'' in
            fold (walk_objc filePath) inner
              (s2\<lparr>extensions := extensions s2 @
                 [(objc_info filePath categoryName ''source.lang.objc.decl.extension''
                     (protocol_names ps) node)\<lparr>extendedType := Some interfaceName\<rparr>]\<rparr>))
         else s2)
      else fold (walk_objc filePath) inner s2)"

definition extractObjCSymbols :: "clang_node \<Rightarrow> string \<Rightarrow> symbol_table" where
  "extractObjCSymbols ast filePath = walk_objc filePath ast no_symbols"

text \<open>
  The member loops of the class block and of the protocol block, over \<^verbatim>\<open>node.inner\<close>;
  \<open>access\<close> is \<^verbatim>\<open>info.accessibility\<close>. Their result is stored in
  \<^verbatim>\<open>memberData[name]\<close>.
\<close>

definition add_class_member :: "string \<Rightarrow> clang_node \<Rightarrow> members \<Rightarrow> members" where
  "add_class_member access child ms =
     (if cl_kind child = Some ''ObjCMethodDecl'' \<and> truthy (cl_name child) then
        (let methodInfo = \<lparr>m_name = or_empty (cl_name child), m_type = cl_returnType child,
                            m_access = Some access\<rparr> in
         if cl_name child = Some ''init'' \<or> startsWith (or_empty (cl_name child)) ''initWith''
         then ms\<lparr>initializers := initializers ms @ [methodInfo]\<rparr>
         else ms\<lparr>methods := methods ms @ [methodInfo]\<rparr>)
      else if cl_kind child = Some ''ObjCPropertyDecl'' \<and> truthy (cl_name child) then
        ms\<lparr>properties := properties ms @
             [\<lparr>m_name = or_empty (cl_name child), m_type = cl_type child,
               m_access = Some access\<rparr>]\<rparr>
      else ms)"

definition add_protocol_member :: "string \<Rightarrow> clang_node \<Rightarrow> members \<Rightarrow> members" where
  "add_protocol_member access child ms =
     (if cl_kind child = Some ''ObjCMethodDecl'' \<and> truthy (cl_name child) then
        ms\<lparr>methods := methods ms @
             [\<lparr>m_name = or_empty (cl_name child), m_type = cl_returnType child,
               m_access = Some access\<rparr>]\<rparr>
      else if cl_kind child = Some ''ObjCPropertyDecl'' \<and> truthy (cl_name child) then
        ms\<lparr>properties := properties ms @
             [\<lparr>m_name = or_empty (cl_name child), m_type = cl_type child,
               m_access = Some access\<rparr>]\<rparr>
      else ms)"

definition class_members :: "string \<Rightarrow> clang_node \<Rightarrow> members" where
  "class_members filePath node =
     fold (add_class_member (objc_access filePath)) (cl_inner node) no_members"

definition protocol_members :: "string \<Rightarrow> clang_node \<Rightarrow> members" where
  "protocol_members filePath node =
     fold (add_protocol_member (objc_access filePath)) (cl_inner node) no_members"

section \<open>Objects used as dictionaries\<close>

text \<open>
  \<^verbatim>\<open>typeMap\<close> and \<^verbatim>\<open>indexes.byName\<close> are plain objects created by \<^verbatim>\<open>{}\<close> and read
  with \<^verbatim>\<open>obj[key]\<close>. Such a read returns the object's own property when there is one and
  otherwise the member of \<^verbatim>\<open>Object.prototype\<close> of that name. \<open>object_prototype\<close> lists
  these members: each is a function, given with its \<^verbatim>\<open>length\<close>, except \<^verbatim>\<open>__proto__\<close>,
  an accessor that yields the prototype object itself (\<open>Some None\<close>). All of them are
  truthy, and none has a property \<^verbatim>\<open>file\<close>, \<^verbatim>\<open>kind\<close>, \<^verbatim>\<open>symbol\<close> or \<^verbatim>\<open>push\<close>.
  A dictionary is modelled by the map of its own properties.
\<close>

definition object_prototype :: "string \<Rightarrow> nat option option" where
  "object_prototype k =
     (if k = ''constructor'' then Some (Some 1)
      else if k = ''hasOwnProperty'' then Some (Some 1)
      else if k = ''isPrototypeOf'' then Some (Some 1)
      else if k = ''propertyIsEnumerable'' then Some (Some 1)
      else if k = ''toString'' then Some (Some 0)
      else if k = ''toLocaleString'' then Some (Some 0)
      else if k = ''valueOf'' then Some (Some 0)
      else if k = ''__defineGetter__'' then Some (Some 2)
      else if k = ''__defineSetter__'' then Some (Some 2)
      else if k = ''__lookupGetter__'' then Some (Some 1)
      else if k = ''__lookupSetter__'' then Some (Some 1)
      else if k = ''__proto__'' then Some None
      else None)"

datatype 'a js_val = Undefined | Own 'a | Inherited "nat option"

definition js_get :: "(string \<rightharpoonup> 'a) \<Rightarrow> string \<Rightarrow> 'a js_val" where
  "js_get obj k =
     (case obj k of
        Some v \<Rightarrow> Own v
      | None \<Rightarrow> (case object_prototype k of Some m \<Rightarrow> Inherited m | None \<Rightarrow> Undefined))"

datatype error = TypeError

section \<open>Member tables\<close>

text \<open>
  \<^verbatim>\<open>memberData\<close> is a plain object as well, written by \<^verbatim>\<open>memberData[name] = members\<close>.
  The assignment creates or replaces an own property, except under the name
  \<^verbatim>\<open>__proto__\<close>: there it replaces the prototype of \<^verbatim>\<open>memberData\<close> and leaves the own
  properties as they are.
\<close>

type_synonym member_table = "string \<rightharpoonup> members"

definition js_set :: "(string \<rightharpoonup> 'a) \<Rightarrow> string \<Rightarrow> 'a \<Rightarrow> (string \<rightharpoonup> 'a)" where
  "js_set obj k v = (if k = ''__proto__'' then obj else obj(k \<mapsto> v))"

text \<open>
  \<^verbatim>\<open>extractMemberData\<close>: the loop over \<^verbatim>\<open>allSymbols\<close>, the classes, structs, protocols
  and enums of the unit in this order.
\<close>

definition extractMemberData :: "sk_node \<Rightarrow> symbol_table \<Rightarrow> member_table" where
  "extractMemberData ast syms =
     fold (\<lambda>symbol memberData.
             case findAndExtractMembers ast (name symbol) of
               None \<Rightarrow> memberData
             | Some ms \<Rightarrow> js_set memberData (name symbol) ms)
       (classes syms @ structs syms @ protocols syms @ enums syms) Map.empty"

text \<open>
  The walk of \<^verbatim>\<open>extractObjCSymbols\<close> fills two tables, \<^verbatim>\<open>symbols\<close> and
  \<^verbatim>\<open>memberData\<close>, and reads neither. \<open>walk_objc\<close> above is what it does to
  \<^verbatim>\<open>symbols\<close>; \<open>walk_objc_members\<close> is what it does to \<^verbatim>\<open>memberData\<close>, under the same
  tests and with the same early return from a category without interface name.
  \<open>extractObjCMemberData\<close> is the component \<^verbatim>\<open>memberData\<close> of the pair that
  \<^verbatim>\<open>extractObjCSymbols\<close> returns, \<open>extractObjCSymbols\<close> above the component
  \<^verbatim>\<open>symbols\<close>.
\<close>

fun walk_objc_members :: "string \<Rightarrow> clang_node \<Rightarrow> member_table \<Rightarrow> member_table" where
  "walk_objc_members filePath (ClangNode k n imp sp ps iface off b e rt ty inner) md =
     (let node = ClangNode k n imp sp ps iface off b e rt ty inner;
          md1 = (if k = Some ''ObjCInterfaceDecl'' \<and> truthy n \<and> \<not> imp
                 then js_set md (or_empty n) (class_members filePath node) else md);
          md2 = (if k = Some ''ObjCProtocolDecl'' \<and> truthy n \<and> \<not> imp
                 then js_set md1 (or_empty n) (protocol_members filePath node) else md1) in
      if k = Some ''ObjCCategoryDecl'' \<and> truthy n \<and> \<not> imp then
        (if truthy (case iface of None \<Rightarrow> None | Some r \<Rightarrow> ref_name r)
         then fold (walk_objc_members filePath) inner md2
         else md2)
      else fold (walk_objc_members filePath) inner md2)"

definition extractObjCMemberData :: "clang_node \<Rightarrow> string \<Rightarrow> member_table" where
  "extractObjCMemberData ast filePath = walk_objc_members filePath ast Map.empty"

section \<open>The graph\<close>

text \<open>
  The kind strings \<^verbatim>\<open>'class'\<close>, \<^verbatim>\<open>'struct'\<close>, \<^verbatim>\<open>'protocol'\<close>, \<^verbatim>\<open>'enum'\<close> and
  \<^verbatim>\<open>'function'\<close> of the type map and of the indexes are the values of \<open>sym_kind\<close>.
  A unit's \<^verbatim>\<open>fileData\<close> keeps its symbol table and language; its member table is not
  read by the operations modelled here.
\<close>

datatype sym_kind = Class | Struct | Protocol | Enum | Function

datatype language = Swift | ObjC

record fileData =
  symbols :: symbol_table
  language :: language

record type_entry =
  te_file :: string
  te_kind :: sym_kind
  te_symbol :: symbol_info

text \<open>An edge \<^verbatim>\<open>{from, to, fromSymbol, toSymbol}\<close>; \<open>e_to\<close> is \<open>None\<close> when \<^verbatim>\<open>to\<close> is undefined.\<close>

record edge =
  e_from :: string
  e_to :: "string option"
  fromSymbol :: string
  toSymbol :: string

record location =
  loc_file :: string
  loc_kind :: sym_kind

record indexes =
  byName :: "string \<rightharpoonup> location list"
  byKind :: "sym_kind \<rightharpoonup> string list"
  byFile :: "string \<rightharpoonup> string list"

text \<open>
  \<open>files\<close> is \<^verbatim>\<open>Object.entries(astData.files)\<close>: the units in the order in which they were
  stored, each under its full path; the paths are pairwise distinct, being the keys of one
  object.
\<close>

record graph =
  repoPath :: string
  files :: "(string \<times> fileData) list"
  typeMap :: "string \<rightharpoonup> type_entry"
  edges :: "edge list"
  indexes :: indexes

definition getRelativePath :: "string \<Rightarrow> string \<Rightarrow> string" where
  "getRelativePath repo fullPath =
     (if repo \<noteq> [] then replace_first (repo @ ''/'') fullPath else fullPath)"

subsection \<open>Type map and edges\<close>

text \<open>
  The assignment \<^verbatim>\<open>typeMap[c.name] = {...}\<close> stores an own property. For the one name
  \<^verbatim>\<open>__proto__\<close> JavaScript would replace the prototype of \<^verbatim>\<open>typeMap\<close> instead; every
  symbol stored here is also indexed below, where that name makes the construction raise
  (\<open>object_prototype\<close>), so no constructed graph depends on the difference.
\<close>

definition add_types ::
  "string \<Rightarrow> sym_kind \<Rightarrow> symbol_info list \<Rightarrow> (string \<rightharpoonup> type_entry) \<Rightarrow> (string \<rightharpoonup> type_entry)" where
  "add_types rel k syms tm =
     fold (\<lambda>c m. m(name c \<mapsto> \<lparr>te_file = rel, te_kind = k, te_symbol = c\<rparr>)) syms tm"

definition add_file_types ::
  "string \<Rightarrow> string \<times> fileData \<Rightarrow> (string \<rightharpoonup> type_entry) \<Rightarrow> (string \<rightharpoonup> type_entry)" where
  "add_file_types repo entry tm =
     (let rel = getRelativePath repo (fst entry); syms = symbols (snd entry) in
      add_types rel Enum (enums syms)
        (add_types rel Protocol (protocols syms)
          (add_types rel Struct (structs syms)
            (add_types rel Class (classes syms) tm))))"

definition build_typeMap :: "string \<Rightarrow> (string \<times> fileData) list \<Rightarrow> (string \<rightharpoonup> type_entry)" where
  "build_typeMap repo fs = fold (add_file_types repo) fs Map.empty"

text \<open>
  The test \<^verbatim>\<open>if (typeMap[inherited])\<close> succeeds on an own entry and on every inherited
  member; on the latter \<^verbatim>\<open>typeMap[inherited].file\<close> is undefined.
\<close>

definition edge_for ::
  "(string \<rightharpoonup> type_entry) \<Rightarrow> string \<Rightarrow> symbol_info \<Rightarrow> string \<Rightarrow> edge list" where
  "edge_for tm rel symbol inherited =
     (case js_get tm inherited of
        Undefined \<Rightarrow> []
      | Own t \<Rightarrow> [\<lparr>e_from = rel, e_to = Some (te_file t), fromSymbol = name symbol,
                    toSymbol = inherited\<rparr>]
      | Inherited m \<Rightarrow> [\<lparr>e_from = rel, e_to = None, fromSymbol = name symbol,
                         toSymbol = inherited\<rparr>])"

definition file_edges ::
  "string \<Rightarrow> (string \<rightharpoonup> type_entry) \<Rightarrow> string \<times> fileData \<Rightarrow> edge list" where
  "file_edges repo tm entry =
     (let rel = getRelativePath repo (fst entry); syms = symbols (snd entry);
          allTypes = classes syms @ structs syms @ enums syms @ extensions syms in
      concat (map (\<lambda>symbol. concat (map (edge_for tm rel symbol) (inheritedTypes symbol)))
                  allTypes))"

definition build_edges ::
  "string \<Rightarrow> (string \<rightharpoonup> type_entry) \<Rightarrow> (string \<times> fileData) list \<Rightarrow> edge list" where
  "build_edges repo tm fs = concat (map (file_edges repo tm) fs)"

subsection \<open>Indexes\<close>

definition no_indexes :: indexes where
  "no_indexes = \<lparr>byName = Map.empty, byKind = Map.empty, byFile = Map.empty\<rparr>"

definition entries :: "('k \<rightharpoonup> 'v list) \<Rightarrow> 'k \<Rightarrow> 'v list" where
  "entries m k = (case m k of None \<Rightarrow> [] | Some vs \<Rightarrow> vs)"

text \<open>
  One round of the loop of \<^verbatim>\<open>processSymbols\<close>. When \<^verbatim>\<open>indexes.byName[symbol.name]\<close> is
  an inherited member the test \<^verbatim>\<open>!indexes.byName[symbol.name]\<close> fails, no array is
  stored, and the call of \<^verbatim>\<open>push\<close> on that member raises. The arrays
  \<^verbatim>\<open>byKind[kind]\<close> and \<^verbatim>\<open>byFile[rel]\<close> exist at this point.
\<close>

definition index_symbol :: "string \<Rightarrow> sym_kind \<Rightarrow> symbol_info \<Rightarrow> indexes \<Rightarrow> error + indexes" where
  "index_symbol rel k symbol idx =
     (case js_get (byName idx) (name symbol) of
        Inherited m \<Rightarrow> Inl TypeError
      | _ \<Rightarrow>
          Inr (idx\<lparr>byName := (byName idx)(name symbol \<mapsto>
                       entries (byName idx) (name symbol) @ [\<lparr>loc_file = rel, loc_kind = k\<rparr>]),
                   byKind := (byKind idx)(k \<mapsto> entries (byKind idx) k @ [name symbol]),
                   byFile := (byFile idx)(rel \<mapsto> entries (byFile idx) rel @ [name symbol])\<rparr>))"

fun index_all :: "string \<Rightarrow> sym_kind \<Rightarrow> symbol_info list \<Rightarrow> indexes \<Rightarrow> error + indexes" where
  "index_all rel k [] idx = Inr idx"
| "index_all rel k (symbol # rest) idx =
     (case index_symbol rel k symbol idx of
        Inl e \<Rightarrow> Inl e
      | Inr idx' \<Rightarrow> index_all rel k rest idx')"

definition processSymbols ::
  "string \<Rightarrow> symbol_info list \<Rightarrow> sym_kind \<Rightarrow> indexes \<Rightarrow> error + indexes" where
  "processSymbols rel syms k idx =
     index_all rel k syms
       (if byKind idx k = None then idx\<lparr>byKind := (byKind idx)(k \<mapsto> [])\<rparr> else idx)"

definition and_then :: "error + 'a \<Rightarrow> ('a \<Rightarrow> error + 'b) \<Rightarrow> error + 'b" where
  "and_then r f = (case r of Inl e \<Rightarrow> Inl e | Inr x \<Rightarrow> f x)"

definition index_file :: "string \<Rightarrow> string \<times> fileData \<Rightarrow> indexes \<Rightarrow> error + indexes" where
  "index_file repo entry idx =
     (let rel = getRelativePath repo (fst entry); syms = symbols (snd entry) in
      and_then (processSymbols rel (classes syms) Class (idx\<lparr>byFile := (byFile idx)(rel \<mapsto> [])\<rparr>))
        (\<lambda>i1. and_then (processSymbols rel (structs syms) Struct i1)
          (\<lambda>i2. and_then (processSymbols rel (protocols syms) Protocol i2)
            (\<lambda>i3. and_then (processSymbols rel (enums syms) Enum i3)
              (\<lambda>i4. processSymbols rel (functions syms) Function i4)))))"

fun index_files :: "string \<Rightarrow> (string \<times> fileData) list \<Rightarrow> indexes \<Rightarrow> error + indexes" where
  "index_files repo [] idx = Inr idx"
| "index_files repo (entry # rest) idx =
     (case index_file repo entry idx of
        Inl e \<Rightarrow> Inl e
      | Inr idx' \<Rightarrow> index_files repo rest idx')"

subsection \<open>Construction\<close>

text \<open>
  The part of \<^verbatim>\<open>init_swift_repo\<close> after the parsers have run: \<open>build_graph\<close> takes the
  stored units and builds type map, edges and indexes in this order; an exception
  leaves the handler through its \<^verbatim>\<open>catch\<close> and no graph is published. The units reach
  \<open>init_swift_repo\<close> as their parsed trees, in processing order, under distinct paths.
\<close>

definition build_graph :: "string \<Rightarrow> (string \<times> fileData) list \<Rightarrow> error + graph" where
  "build_graph repo fs =
     (let tm = build_typeMap repo fs;
          es = build_edges repo tm fs in
      case index_files repo fs no_indexes of
        Inl e \<Rightarrow> Inl e
      | Inr idx \<Rightarrow> Inr \<lparr>repoPath = repo, files = fs, typeMap = tm, edges = es, indexes = idx\<rparr>)"

datatype raw_ast = SwiftAst sk_node | ObjCAst clang_node

definition extract_unit :: "string \<times> raw_ast \<Rightarrow> string \<times> fileData" where
  "extract_unit u =
     (case snd u of
        SwiftAst ast \<Rightarrow> (fst u, \<lparr>symbols = extractSymbols ast (fst u), language = Swift\<rparr>)
      | ObjCAst ast \<Rightarrow> (fst u, \<lparr>symbols = extractObjCSymbols ast (fst u), language = ObjC\<rparr>))"

definition init_swift_repo :: "string \<Rightarrow> (string \<times> raw_ast) list \<Rightarrow> error + graph" where
  "init_swift_repo repo units = build_graph repo (map extract_unit units)"

section \<open>Queries\<close>

subsection \<open>findSymbol\<close>

definition kindToPlural :: "sym_kind \<Rightarrow> string" where
  "kindToPlural k =
     (case k of Class \<Rightarrow> ''classes'' | Struct \<Rightarrow> ''structs'' | Protocol \<Rightarrow> ''protocols''
      | Enum \<Rightarrow> ''enums'' | Function \<Rightarrow> ''functions'')"

text \<open>\<^verbatim>\<open>fileData.symbols[pluralKind]\<close>: the bucket stored under a key of the symbol table.\<close>

definition bucket :: "symbol_table \<Rightarrow> string \<Rightarrow> symbol_info list option" where
  "bucket syms key =
     (if key = ''classes'' then Some (classes syms)
      else if key = ''structs'' then Some (structs syms)
      else if key = ''protocols'' then Some (protocols syms)
      else if key = ''functions'' then Some (functions syms)
      else if key = ''enums'' then Some (enums syms)
      else if key = ''extensions'' then Some (extensions syms)
      else if key = ''variables'' then Some (variables syms)
      else None)"

text \<open>
  The result of \<open>findSymbol\<close>: \<^verbatim>\<open>null\<close>; or the symbol with its \<^verbatim>\<open>file\<close> replaced by
  the location's and the added \<^verbatim>\<open>symbolKind\<close>; or, when \<^verbatim>\<open>typeMap[symbolName]\<close> is an
  inherited member, the object \<^verbatim>\<open>{file: undefined, symbolKind: undefined}\<close>.
\<close>

datatype resolved = NotFound | Found symbol_info sym_kind | FoundInherited

definition typeMap_fallback :: "graph \<Rightarrow> string \<Rightarrow> resolved" where
  "typeMap_fallback g symbolName =
     (case js_get (typeMap g) symbolName of
        Undefined \<Rightarrow> NotFound
      | Own typeInfo \<Rightarrow> Found ((te_symbol typeInfo)\<lparr>file := te_file typeInfo\<rparr>) (te_kind typeInfo)
      | Inherited m \<Rightarrow> FoundInherited)"

text \<open>
  The lookup through the index, for the first location \<open>match\<close>; \<open>None\<close> when one of
  its three tests fails. \<open>join\<close> is \<^verbatim>\<open>path.join\<close> of the Node library.
\<close>

definition index_lookup ::
  "(string \<Rightarrow> string \<Rightarrow> string) \<Rightarrow> graph \<Rightarrow> string \<Rightarrow> location \<Rightarrow> resolved option" where
  "index_lookup join g symbolName match =
     (case map_of (files g) (join (repoPath g) (loc_file match)) of
        None \<Rightarrow> None
      | Some fd \<Rightarrow>
          (case bucket (symbols fd) (kindToPlural (loc_kind match)) of
             None \<Rightarrow> None
           | Some symbolList \<Rightarrow>
               (case find (\<lambda>s. name s = symbolName) symbolList of
                  None \<Rightarrow> None
                | Some symbol \<Rightarrow> Some (Found (symbol\<lparr>file := loc_file match\<rparr>) (loc_kind match)))))"

text \<open>
  \<^verbatim>\<open>indexes.byName[symbolName]\<close> may be an inherited member: a function of length
  \<open>n > 0\<close> passes the test \<^verbatim>\<open>indexMatches.length > 0\<close>, its element \<^verbatim>\<open>[0]\<close> is undefined
  and reading \<^verbatim>\<open>match.file\<close> raises.
\<close>

definition findSymbol ::
  "(string \<Rightarrow> string \<Rightarrow> string) \<Rightarrow> graph \<Rightarrow> string \<Rightarrow> error + resolved" where
  "findSymbol join g symbolName =
     (case js_get (byName (indexes g)) symbolName of
        Undefined \<Rightarrow> Inr (typeMap_fallback g symbolName)
      | Own indexMatches \<Rightarrow>
          (case indexMatches of
             [] \<Rightarrow> Inr (typeMap_fallback g symbolName)
           | match # rest \<Rightarrow>
               (case index_lookup join g symbolName match of
                  Some r \<Rightarrow> Inr r
                | None \<Rightarrow> Inr (typeMap_fallback g symbolName)))
      | Inherited m \<Rightarrow>
          (case m of
             Some n \<Rightarrow> if n > 0 then Inl TypeError else Inr (typeMap_fallback g symbolName)
           | None \<Rightarrow> Inr (typeMap_fallback g symbolName)))"

subsection \<open>explain\_symbol: the usage sets\<close>

record inheritor =
  i_name :: string
  i_file :: "string"

record extension_use =
  x_file :: string
  conformances :: "string list"

record usages =
  inheritedBy :: "inheritor list"
  extendedIn :: "extension_use list"
  referencedIn :: "string list"

definition all_buckets :: "symbol_table \<Rightarrow> symbol_info list list" where
  "all_buckets syms =
     [classes syms, structs syms, protocols syms, functions syms, enums syms,
      extensions syms, variables syms]"

definition usesSymbol :: "string list \<Rightarrow> string \<Rightarrow> fileData \<Rightarrow> string \<Rightarrow> bool" where
  "usesSymbol filesWithSymbol rel fd symbolName =
     (rel \<in> set filesWithSymbol \<or>
      list_ex (\<lambda>symbolList.
         list_ex (\<lambda>s. typeName s = Some symbolName \<or> symbolName \<in> set (inheritedTypes s))
           symbolList)
        (all_buckets (symbols fd)))"

text \<open>One round of the loop over \<^verbatim>\<open>Object.entries(astData.files)\<close>.\<close>

definition scan_file ::
  "string \<Rightarrow> string \<Rightarrow> string \<Rightarrow> string list \<Rightarrow> string \<times> fileData \<Rightarrow>
   extension_use list \<times> string list \<Rightarrow> extension_use list \<times> string list" where
  "scan_file repo symbolName symbolFile filesWithSymbol entry acc =
     (let rel = getRelativePath repo (fst entry); fd = snd entry in
      if rel = symbolFile then acc
      else
        (fst acc @
           map (\<lambda>ext. \<lparr>x_file = rel, conformances = inheritedTypes ext\<rparr>)
             (filter (\<lambda>ext. name ext = symbolName) (extensions (symbols fd))),
         snd acc @ (if usesSymbol filesWithSymbol rel fd symbolName then [rel] else [])))"

text \<open>
  The edge field \<^verbatim>\<open>from\<close> is always a string. The locations are read by
  \<^verbatim>\<open>byName[symbolName] || []\<close> and then iterated; an inherited member is not iterable.
  For the object \<open>FoundInherited\<close> the call \<^verbatim>\<open>path.join(repoPath, symbol.file)\<close> raises,
  since \<^verbatim>\<open>symbol.file\<close> is undefined. The result is \<open>Inr None\<close> when the symbol is not
  found. The model ends with the three usage lists; the member table and the text of the
  response are left out.
\<close>

definition explain_symbol ::
  "(string \<Rightarrow> string \<Rightarrow> string) \<Rightarrow> graph \<Rightarrow> string \<Rightarrow> error + usages option" where
  "explain_symbol join g symbolName =
     (case findSymbol join g symbolName of
        Inl e \<Rightarrow> Inl e
      | Inr NotFound \<Rightarrow> Inr None
      | Inr FoundInherited \<Rightarrow> Inl TypeError
      | Inr (Found symbol symbolKind) \<Rightarrow>
          (case js_get (byName (indexes g)) symbolName of
             Inherited m \<Rightarrow> Inl TypeError
           | v \<Rightarrow>
               (let symbolLocations = (case v of Own ls \<Rightarrow> ls | _ \<Rightarrow> []);
                    filesWithSymbol =
                      map loc_file (filter (\<lambda>loc. loc_file loc \<noteq> file symbol) symbolLocations);
                    r = fold (scan_file (repoPath g) symbolName (file symbol) filesWithSymbol)
                          (files g) ([], []) in
                Inr (Some
                  \<lparr>inheritedBy =
                     map (\<lambda>e. \<lparr>i_name = fromSymbol e, i_file = e_from e\<rparr>)
                       (filter (\<lambda>e. toSymbol e = symbolName) (edges g)),
                   extendedIn = fst r,
                   referencedIn = snd r\<rparr>))))"

subsection \<open>search\_symbols\<close>

record search_result =
  r_name :: string
  r_kind :: sym_kind
  r_file :: string
  r_inherited :: "string list"

text \<open>
  \<open>lower\<close> is \<^verbatim>\<open>String.prototype.toLowerCase\<close>; \<open>q\<close> is the query after lower-casing.
\<close>

definition add_results ::
  "(string \<Rightarrow> string) \<Rightarrow> string \<Rightarrow> string \<Rightarrow> symbol_info list \<Rightarrow> sym_kind \<Rightarrow> search_result list" where
  "add_results lower q rel syms k =
     map (\<lambda>s. \<lparr>r_name = name s, r_kind = k, r_file = rel, r_inherited = inheritedTypes s\<rparr>)
       (filter (\<lambda>s. str_includes (lower (name s)) q) syms)"

text \<open>The filter \<open>ty\<close> is \<open>None\<close> for \<^verbatim>\<open>"all"\<close>, the default.\<close>

definition search_file ::
  "(string \<Rightarrow> string) \<Rightarrow> string \<Rightarrow> string \<Rightarrow> sym_kind option \<Rightarrow> string \<times> fileData \<Rightarrow>
   search_result list" where
  "search_file lower repo q ty entry =
     (let rel = getRelativePath repo (fst entry); syms = symbols (snd entry) in
      (if ty = None \<or> ty = Some Class then add_results lower q rel (classes syms) Class else []) @
      (if ty = None \<or> ty = Some Struct then add_results lower q rel (structs syms) Struct else []) @
      (if ty = None \<or> ty = Some Protocol
       then add_results lower q rel (protocols syms) Protocol else []) @
      (if ty = None \<or> ty = Some Function
       then add_results lower q rel (functions syms) Function else []) @
      (if ty = None \<or> ty = Some Enum then add_results lower q rel (enums syms) Enum else []))"

definition search_symbols ::
  "(string \<Rightarrow> string) \<Rightarrow> graph \<Rightarrow> string \<Rightarrow> sym_kind option \<Rightarrow> search_result list" where
  "search_symbols lower g query ty =
     concat (map (search_file lower (repoPath g) (lower query) ty) (files g))"

section \<open>Notions of the specification\<close>

text \<open>
  The bucket priority as the specification words it: the buckets in order, each with the
  keywords that select it; the first bucket with a keyword occurring in the kind tag wins.
\<close>

datatype bucket_name = B_classes | B_structs | B_protocols | B_enums | B_extensions
  | B_functions | B_variables

definition priority :: "(bucket_name \<times> string list) list" where
  "priority =
     [(B_classes, [''class'']), (B_structs, [''struct'']), (B_protocols, [''protocol'']),
      (B_enums, [''enum'']), (B_extensions, [''extension'']),
      (B_functions, [''function'', ''method'']), (B_variables, [''var''])]"

definition first_match :: "string \<Rightarrow> bucket_name option" where
  "first_match k = map_option fst (find (\<lambda>e. list_ex (str_includes k) (snd e)) priority)"

definition put :: "bucket_name \<Rightarrow> symbol_info \<Rightarrow> symbol_table \<Rightarrow> symbol_table" where
  "put b info s =
     (case b of
        B_classes \<Rightarrow> s\<lparr>classes := classes s @ [info]\<rparr>
      | B_structs \<Rightarrow> s\<lparr>structs := structs s @ [info]\<rparr>
      | B_protocols \<Rightarrow> s\<lparr>protocols := protocols s @ [info]\<rparr>
      | B_enums \<Rightarrow> s\<lparr>enums := enums s @ [info]\<rparr>
      | B_extensions \<Rightarrow>
          s\<lparr>extensions := extensions s @ [info\<lparr>extendedType := Some (name info)\<rparr>]\<rparr>
      | B_functions \<Rightarrow> s\<lparr>functions := functions s @ [info]\<rparr>
      | B_variables \<Rightarrow> s\<lparr>variables := variables s @ [info]\<rparr>)"

definition total_symbols :: "symbol_table \<Rightarrow> nat" where
  "total_symbols s = sum_list (map length (all_buckets s))"

text \<open>
  Declaration order in a Shape A tree is the order in which \<^verbatim>\<open>walk\<close> meets the nodes:
  a node before its children, the children from left to right. \<open>node_bucket\<close> is the
  bucket a node is meant for, \<open>node_entry\<close> the entry it leaves there.
\<close>

fun preorder :: "sk_node \<Rightarrow> sk_node list" where
  "preorder (SKNode k n i a t off l subs) =
     SKNode k n i a t off l subs # concat (map preorder subs)"

definition get :: "bucket_name \<Rightarrow> symbol_table \<Rightarrow> symbol_info list" where
  "get b s =
     (case b of B_classes \<Rightarrow> classes s | B_structs \<Rightarrow> structs s | B_protocols \<Rightarrow> protocols s
      | B_enums \<Rightarrow> enums s | B_extensions \<Rightarrow> extensions s | B_functions \<Rightarrow> functions s
      | B_variables \<Rightarrow> variables s)"

definition node_bucket :: "sk_node \<Rightarrow> bucket_name option" where
  "node_bucket node =
     (if truthy (key_kind node) \<and> truthy (key_name node)
      then first_match (or_empty (key_kind node)) else None)"

definition node_entry :: "string \<Rightarrow> bucket_name \<Rightarrow> sk_node \<Rightarrow> symbol_info" where
  "node_entry fp b node =
     (let info = sk_info fp (or_empty (key_kind node)) (or_empty (key_name node)) node in
      if b = B_extensions then info\<lparr>extendedType := Some (name info)\<rparr> else info)"

text \<open>Every entry of every bucket of a symbol table carries a non-empty name.\<close>

definition named :: "symbol_table \<Rightarrow> bool" where
  "named s = (\<forall>i \<in> set (concat (all_buckets s)). name i \<noteq> [])"

text \<open>
  The graph builder in the words of the specification. \<open>type_entries repo u n\<close> lists
  the entries that unit \<open>u\<close> stores under the name \<open>n\<close> in the type map, in the order of
  the assignments; a later assignment replaces an earlier one (\<open>last_wins\<close>).
  \<open>name_locations repo u n\<close> lists the \<^verbatim>\<open>{file, kind}\<close> locations that unit \<open>u\<close>
  appends to \<^verbatim>\<open>byName[n]\<close>, and \<open>indexed_names\<close> the names it appends to its
  \<^verbatim>\<open>byFile\<close> list.
\<close>

definition last_wins :: "'a list \<Rightarrow> 'a option \<Rightarrow> 'a option" where
  "last_wins es v = (if es = [] then v else Some (last es))"

definition type_entries :: "string \<Rightarrow> string \<times> fileData \<Rightarrow> string \<Rightarrow> type_entry list" where
  "type_entries repo u n =
     (let rel = getRelativePath repo (fst u); syms = symbols (snd u) in
      map (\<lambda>c. \<lparr>te_file = rel, te_kind = Class, te_symbol = c\<rparr>)
        (filter (\<lambda>c. name c = n) (classes syms)) @
      map (\<lambda>c. \<lparr>te_file = rel, te_kind = Struct, te_symbol = c\<rparr>)
        (filter (\<lambda>c. name c = n) (structs syms)) @
      map (\<lambda>c. \<lparr>te_file = rel, te_kind = Protocol, te_symbol = c\<rparr>)
        (filter (\<lambda>c. name c = n) (protocols syms)) @
      map (\<lambda>c. \<lparr>te_file = rel, te_kind = Enum, te_symbol = c\<rparr>)
        (filter (\<lambda>c. name c = n) (enums syms)))"

definition of_kind :: "sym_kind \<Rightarrow> symbol_table \<Rightarrow> symbol_info list" where
  "of_kind k syms =
     (case k of Class \<Rightarrow> classes syms | Struct \<Rightarrow> structs syms | Protocol \<Rightarrow> protocols syms
      | Enum \<Rightarrow> enums syms | Function \<Rightarrow> functions syms)"

definition index_order :: "sym_kind list" where
  "index_order = [Class, Struct, Protocol, Enum, Function]"

definition name_locations :: "string \<Rightarrow> string \<times> fileData \<Rightarrow> string \<Rightarrow> location list" where
  "name_locations repo u n =
     concat (map (\<lambda>k. map (\<lambda>s. \<lparr>loc_file = getRelativePath repo (fst u), loc_kind = k\<rparr>)
                          (filter (\<lambda>s. name s = n) (of_kind k (symbols (snd u)))))
                 index_order)"

definition indexed_names :: "symbol_table \<Rightarrow> string list" where
  "indexed_names syms = concat (map (\<lambda>k. map name (of_kind k syms)) index_order)"

text \<open>
  The usage query in the words of the specification: a unit is identified by its relative
  path, and it mentions \<open>n\<close> when one of its symbols, in any bucket, has the type name
  \<open>n\<close> or lists \<open>n\<close> among its inherited types.
\<close>

definition unit_id :: "graph \<Rightarrow> string \<times> fileData \<Rightarrow> string" where
  "unit_id g u = getRelativePath (repoPath g) (fst u)"

definition mentions :: "fileData \<Rightarrow> string \<Rightarrow> bool" where
  "mentions fd n =
     (\<exists>s \<in> set (concat (all_buckets (symbols fd))).
        typeName s = Some n \<or> n \<in> set (inheritedTypes s))"

text \<open>
  The search in the words of the specification: the kinds in the order in which one unit
  contributes them, and the case-insensitive containment test, which compares the name and
  the query after lower-casing both.
\<close>

definition search_order :: "sym_kind list" where
  "search_order = [Class, Struct, Protocol, Function, Enum]"

definition kind_bucket :: "sym_kind \<Rightarrow> bucket_name" where
  "kind_bucket k =
     (case k of Class \<Rightarrow> B_classes | Struct \<Rightarrow> B_structs | Protocol \<Rightarrow> B_protocols
      | Enum \<Rightarrow> B_enums | Function \<Rightarrow> B_functions)"

definition matches :: "(string \<Rightarrow> string) \<Rightarrow> string \<Rightarrow> symbol_info \<Rightarrow> bool" where
  "matches lower query s = str_includes (lower (name s)) (lower query)"

text \<open>No own key of \<^verbatim>\<open>byName\<close> is the name of a member that every object inherits.\<close>

definition clean :: "indexes \<Rightarrow> bool" where
  "clean idx = (\<forall>n \<in> dom (byName idx). object_prototype n = None)"

text \<open>
  Declaration order in a Shape B tree: a node before its children, the children from left to
  right, where the children of a named, explicit category without interface name are not
  visited at all. \<open>objc_bucket\<close> is the bucket a node is meant for, \<open>objc_entry\<close> the
  entry it leaves there.
\<close>

definition skips_children :: "clang_node \<Rightarrow> bool" where
  "skips_children node =
     (cl_kind node = Some ''ObjCCategoryDecl'' \<and> truthy (cl_name node) \<and> \<not> cl_isImplicit node \<and>
      \<not> truthy (case cl_interface node of None \<Rightarrow> None | Some r \<Rightarrow> ref_name r))"

fun visited :: "clang_node \<Rightarrow> clang_node list" where
  "visited (ClangNode k n imp sp ps iface off b e rt ty inner) =
     ClangNode k n imp sp ps iface off b e rt ty inner #
     (if skips_children (ClangNode k n imp sp ps iface off b e rt ty inner) then []
      else concat (map visited inner))"

definition objc_bucket :: "clang_node \<Rightarrow> bucket_name option" where
  "objc_bucket node =
     (if truthy (cl_name node) \<and> \<not> cl_isImplicit node then
        (if cl_kind node = Some ''ObjCInterfaceDecl'' then Some B_classes
         else if cl_kind node = Some ''ObjCProtocolDecl'' then Some B_protocols
         else if cl_kind node = Some ''ObjCCategoryDecl'' \<and>
                 truthy (case cl_interface node of None \<Rightarrow> None | Some r \<Rightarrow> ref_name r)
         then Some B_extensions
         else None)
      else None)"

definition objc_entry :: "string \<Rightarrow> clang_node \<Rightarrow> symbol_info" where
  "objc_entry fp node =
     (if cl_kind node = Some ''ObjCInterfaceDecl'' then
        objc_info fp (or_empty (cl_name node)) ''source.lang.objc.decl.class''
          (super_names (cl_super node) @ protocol_names (cl_protocols node)) node
      else if cl_kind node = Some ''ObjCProtocolDecl'' then
        objc_info fp (or_empty (cl_name node)) ''source.lang.objc.decl.protocol''
          (protocol_names (cl_protocols node)) node
      else
        (let interfaceName =
               or_empty (case cl_interface node of None \<Rightarrow> None | Some r \<Rightarrow> ref_name r) in
         (objc_info fp (interfaceName @ ''('' @ or_empty (cl_name node) @ '')'')
            ''source.lang.objc.decl.extension'' (protocol_names (cl_protocols node)) node)
         \<lparr>extendedType := Some interfaceName\<rparr>))"

definition objc_push :: "string \<Rightarrow> clang_node \<Rightarrow> symbol_table \<Rightarrow> symbol_table" where
  "objc_push fp node s =
     (case objc_bucket node of
        None \<Rightarrow> s
      | Some B_classes \<Rightarrow> s\<lparr>classes := classes s @ [objc_entry fp node]\<rparr>
      | Some B_protocols \<Rightarrow> s\<lparr>protocols := protocols s @ [objc_entry fp node]\<rparr>
      | Some B_extensions \<Rightarrow> s\<lparr>extensions := extensions s @ [objc_entry fp node]\<rparr>
      | Some _ \<Rightarrow> s)"

text \<open>
  Member extraction in the words of the specification. In Shape A the members of a name
  are those of the first node in declaration order that carries both tags and this name.
  In Shape B every class or protocol node that is visited stores the members of its own
  child list under its name (\<open>member_owner\<close>), a later node replacing an earlier one.
\<close>

definition matched :: "string \<Rightarrow> sk_node \<Rightarrow> bool" where
  "matched symbolName node =
     (truthy (key_kind node) \<and> truthy (key_name node) \<and> key_name node = Some symbolName)"

definition member_owner :: "clang_node \<Rightarrow> string option" where
  "member_owner node =
     (if (cl_kind node = Some ''ObjCInterfaceDecl'' \<or> cl_kind node = Some ''ObjCProtocolDecl'') \<and>
         truthy (cl_name node) \<and> \<not> cl_isImplicit node \<and> cl_name node \<noteq> Some ''__proto__''
      then cl_name node else None)"

definition members_of :: "string \<Rightarrow> clang_node \<Rightarrow> members" where
  "members_of fp node =
     (if cl_kind node = Some ''ObjCInterfaceDecl'' then class_members fp node
      else protocol_members fp node)"

definition member_assign :: "string \<Rightarrow> clang_node \<Rightarrow> member_table \<Rightarrow> member_table" where
  "member_assign fp node md =
     (case member_owner node of None \<Rightarrow> md | Some n \<Rightarrow> md(n \<mapsto> members_of fp node))"

section \<open>Fixtures\<close>

text \<open>
  \<open>join_paths\<close> is \<^verbatim>\<open>path.join\<close> on a directory without trailing slash and a relative
  path without dot segments. The trees below are the smallest ones of each shape: a root
  without tags (the SourceKitten response, the Clang translation unit) over a list of
  declarations.
\<close>

definition join_paths :: "string \<Rightarrow> string \<Rightarrow> string" where
  "join_paths dir p = dir @ ''/'' @ p"

definition sk_decl :: "string \<Rightarrow> string \<Rightarrow> string list \<Rightarrow> sk_node list \<Rightarrow> sk_node" where
  "sk_decl k n inh subs = SKNode (Some k) (Some n) (Some inh) None None None None subs"

definition sk_root :: "sk_node list \<Rightarrow> sk_node" where
  "sk_root subs = SKNode None None None None None None None subs"

definition cl_decl ::
  "string \<Rightarrow> string \<Rightarrow> clang_ref option \<Rightarrow> clang_ref list \<Rightarrow> clang_node" where
  "cl_decl k n iface ps =
     ClangNode (Some k) (Some n) False None (Some ps) iface None None None None None []"

definition cl_root :: "clang_node list \<Rightarrow> clang_node" where
  "cl_root inner =
     ClangNode (Some ''TranslationUnitDecl'') None False None None None None None None None None
       inner"

text \<open>A class \<^verbatim>\<open>Foo\<close> inheriting from \<^verbatim>\<open>Base\<close>, declared beside it, and from \<^verbatim>\<open>toString\<close>.\<close>

definition proto_units :: "(string \<times> raw_ast) list" where
  "proto_units =
     [(''/r/A.swift'', SwiftAst (sk_root
        [sk_decl ''source.lang.swift.decl.class'' ''Base'' [] [],
         sk_decl ''source.lang.swift.decl.class'' ''Foo'' [''Base'', ''toString''] []]))]"

text \<open>Two units that each declare a class \<^verbatim>\<open>Foo\<close>.\<close>

definition duplicate_units :: "(string \<times> raw_ast) list" where
  "duplicate_units =
     [(''/r/A.swift'', SwiftAst (sk_root [sk_decl ''source.lang.swift.decl.class'' ''Foo'' [] []])),
      (''/r/B.swift'', SwiftAst (sk_root [sk_decl ''source.lang.swift.decl.class'' ''Foo'' [] []]))]"

text \<open>
  A class \<^verbatim>\<open>Foo\<close> in one unit and, in another unit, an extension of \<^verbatim>\<open>Foo\<close> that adds
  the conformance \<^verbatim>\<open>Bar\<close>: once in Swift, once as the Objective-C category
  \<^verbatim>\<open>@interface Foo (Cat) <Bar>\<close>.
\<close>

definition extension_units :: "(string \<times> raw_ast) list" where
  "extension_units =
     [(''/r/Foo.swift'', SwiftAst (sk_root
        [sk_decl ''source.lang.swift.decl.class'' ''Foo'' [] []])),
      (''/r/Foo+Bar.swift'', SwiftAst (sk_root
        [sk_decl ''source.lang.swift.decl.extension'' ''Foo'' [''Bar''] []]))]"

definition category_units :: "(string \<times> raw_ast) list" where
  "category_units =
     [(''/r/Foo.h'', ObjCAst (cl_root [cl_decl ''ObjCInterfaceDecl'' ''Foo'' None []])),
      (''/r/Foo+Cat.h'', ObjCAst (cl_root
        [cl_decl ''ObjCCategoryDecl'' ''Cat'' (Some (ClangRef (Some ''0x1'') (Some ''Foo'')))
           [ClangRef (Some ''0x2'') (Some ''Bar'')]]))]"

text \<open>
  A class \<^verbatim>\<open>Base\<close>, a subclass of it, a global variable of type \<^verbatim>\<open>Base\<close> and an
  unrelated struct, each in a unit of its own.
\<close>

definition usage_units :: "(string \<times> raw_ast) list" where
  "usage_units =
     [(''/r/A.swift'', SwiftAst (sk_root [sk_decl ''source.lang.swift.decl.class'' ''Base'' [] []])),
      (''/r/B.swift'', SwiftAst (sk_root
        [sk_decl ''source.lang.swift.decl.class'' ''Child'' [''Base''] []])),
      (''/r/C.swift'', SwiftAst (sk_root
        [SKNode (Some ''source.lang.swift.decl.var.global'') (Some ''shared'') None None
           (Some ''Base'') None None []])),
      (''/r/D.swift'', SwiftAst (sk_root [sk_decl ''source.lang.swift.decl.struct'' ''Other'' [] []]))]"

text \<open>
  A unit that declares a struct, a class, a function and another class, in this order, and
  a second unit with an enum and a class whose name does not contain \<^verbatim>\<open>user\<close>.
\<close>

definition users_ast :: sk_node where
  "users_ast = sk_root
     [sk_decl ''source.lang.swift.decl.struct'' ''UserRecord'' [] [],
      sk_decl ''source.lang.swift.decl.class'' ''UserManager'' [] [],
      sk_decl ''source.lang.swift.decl.function.free'' ''loadUser()'' [] [],
      sk_decl ''source.lang.swift.decl.class'' ''UserViewModel'' [''ObservableObject''] []]"

definition search_units :: "(string \<times> raw_ast) list" where
  "search_units =
     [(''/r/Users.swift'', SwiftAst users_ast),
      (''/r/Roles.swift'', SwiftAst (sk_root
        [sk_decl ''source.lang.swift.decl.enum'' ''UserRole'' [] [],
         sk_decl ''source.lang.swift.decl.class'' ''Permission'' [] []]))]"

text \<open>
  On a string of ASCII characters \<^verbatim>\<open>toLowerCase\<close> replaces the letters \<^verbatim>\<open>A\<close> to \<^verbatim>\<open>Z\<close>
  and keeps every other character; \<open>ascii_lower\<close> is this restriction, used where the
  names and the query of a fixture are ASCII.
\<close>

definition ascii_lower_char :: "char \<Rightarrow> char" where
  "ascii_lower_char c =
     (case map_of (zip ''ABCDEFGHIJKLMNOPQRSTUVWXYZ'' ''abcdefghijklmnopqrstuvwxyz'') c of
        None \<Rightarrow> c
      | Some d \<Rightarrow> d)"

definition ascii_lower :: "string \<Rightarrow> string" where
  "ascii_lower s = map ascii_lower_char s"

text \<open>
  Unit \<^verbatim>\<open>A.swift\<close> declares a class \<^verbatim>\<open>Foo\<close> and, nested in an enum, a struct \<^verbatim>\<open>Foo\<close>;
  unit \<^verbatim>\<open>B.swift\<close> declares a class \<^verbatim>\<open>Foo\<close>.
\<close>

definition nested_units :: "(string \<times> raw_ast) list" where
  "nested_units =
     [(''/r/A.swift'', SwiftAst (sk_root
        [sk_decl ''source.lang.swift.decl.class'' ''Foo'' [] [],
         sk_decl ''source.lang.swift.decl.enum'' ''Scope'' []
           [sk_decl ''source.lang.swift.decl.struct'' ''Foo'' [] []]])),
      (''/r/B.swift'', SwiftAst (sk_root [sk_decl ''source.lang.swift.decl.class'' ''Foo'' [] []]))]"

text \<open>Two units that each declare a struct \<^verbatim>\<open>constructor\<close>.\<close>

definition constructor_units :: "(string \<times> raw_ast) list" where
  "constructor_units =
     [(''/r/A.swift'', SwiftAst (sk_root
        [sk_decl ''source.lang.swift.decl.struct'' ''constructor'' [] []])),
      (''/r/B.swift'', SwiftAst (sk_root
        [sk_decl ''source.lang.swift.decl.struct'' ''constructor'' [] []]))]"

text \<open>
  A project opened as \<^verbatim>\<open>.\<close>: the file scan joins the directory and the entry names with
  \<^verbatim>\<open>path.join\<close>, which drops the leading \<^verbatim>\<open>./\<close>, so the units are \<^verbatim>\<open>Base.swift\<close>,
  \<^verbatim>\<open>x./B.swift\<close> (in the directory \<^verbatim>\<open>x.\<close>) and \<^verbatim>\<open>xB.swift\<close>. \<open>join_here\<close> is
  \<^verbatim>\<open>path.join\<close> on the directory \<^verbatim>\<open>.\<close> and such a path.
\<close>

definition join_here :: "string \<Rightarrow> string \<Rightarrow> string" where
  "join_here dir p = p"

definition collide_units :: "(string \<times> raw_ast) list" where
  "collide_units =
     [(''Base.swift'', SwiftAst (sk_root [sk_decl ''source.lang.swift.decl.class'' ''Base'' [] []])),
      (''x./B.swift'', SwiftAst (sk_root
        [sk_decl ''source.lang.swift.decl.class'' ''Child'' [''Base''] []])),
      (''xB.swift'', SwiftAst (sk_root
        [sk_decl ''source.lang.swift.decl.class'' ''Other'' [''Base''] []]))]"

text \<open>
  A class \<^verbatim>\<open>Foo\<close> with the methods \<^verbatim>\<open>initialize\<close>, \<^verbatim>\<open>initFromData\<close>,
  \<^verbatim>\<open>initWithName:\<close> and \<^verbatim>\<open>run\<close>, in Swift and in Objective-C, the latter beside a
  protocol \<^verbatim>\<open>FooDelegate\<close> that requires \<^verbatim>\<open>initWithName:\<close>.
\<close>

definition sk_method :: "string \<Rightarrow> sk_node" where
  "sk_method n =
     SKNode (Some ''source.lang.swift.decl.function.method.instance'') (Some n) None None None
       None None []"

definition cl_method :: "string \<Rightarrow> clang_node" where
  "cl_method n =
     ClangNode (Some ''ObjCMethodDecl'') (Some n) False None None None None None None None None []"

definition cl_container :: "string \<Rightarrow> string \<Rightarrow> clang_node list \<Rightarrow> clang_node" where
  "cl_container k n inner =
     ClangNode (Some k) (Some n) False None None None None None None None None inner"

definition swift_members_ast :: sk_node where
  "swift_members_ast = sk_root
     [sk_decl ''source.lang.swift.decl.class'' ''Foo'' []
        [sk_method ''initialize'', sk_method ''initFromData'', sk_method ''initWithName:'',
         sk_method ''run'']]"

definition objc_members_ast :: clang_node where
  "objc_members_ast = cl_root
     [cl_container ''ObjCInterfaceDecl'' ''Foo''
        [cl_method ''initialize'', cl_method ''initFromData'', cl_method ''initWithName:'',
         cl_method ''run''],
      cl_container ''ObjCProtocolDecl'' ''FooDelegate'' [cl_method ''initWithName:'']]"

text \<open>
  An Objective-C header that declares a protocol, then two classes: the buckets keep the
  classes in this order.
\<close>

definition objc_users_ast :: clang_node where
  "objc_users_ast = cl_root
     [cl_decl ''ObjCProtocolDecl'' ''UserSource'' None [],
      cl_decl ''ObjCInterfaceDecl'' ''UserStore'' None [],
      cl_decl ''ObjCInterfaceDecl'' ''UserCache'' None []]"

section \<open>Classification of Shape A nodes\<close>

lemma total_symbols_put: "total_symbols (put b info s) = Suc (total_symbols s)"
  by (cases b) (simp_all add: put_def total_symbols_def all_buckets_def)

lemma classify_tagged:
  assumes "key_kind node = Some k" and "key_name node = Some n" and "k \<noteq> []" and "n \<noteq> []"
  shows "classify fp node s =
     (case first_match k of None \<Rightarrow> s | Some b \<Rightarrow> put b (sk_info fp k n node) s)"
  using assms
  by (simp add: classify_def first_match_def priority_def put_def sk_info_def Let_def)

lemma classify_unnamed: "\<not> truthy (key_name node) \<Longrightarrow> classify fp node s = s"
  by (auto simp: classify_def truthy_def split: option.splits)

text \<open>
  Claim C6, as stated, fails: a node with both tags whose kind tag holds none of the
  keywords (here a type alias) is put into no bucket at all.
\<close>

theorem typealias_lands_nowhere:
  "key_kind (SKNode (Some ''source.lang.swift.decl.typealias'') (Some ''T'')
      None None None None None []) \<noteq> None \<and>
   key_name (SKNode (Some ''source.lang.swift.decl.typealias'') (Some ''T'')
      None None None None None []) \<noteq> None \<and>
   total_symbols (extractSymbols (SKNode (Some ''source.lang.swift.decl.typealias'') (Some ''T'')
      None None None None None []) ''a.swift'') = 0"
  by (simp add: extractSymbols_def classify_def str_includes_def sublist_Cons_right
      no_symbols_def total_symbols_def all_buckets_def)

text \<open>
  Claim C6, amended. A Shape A node with a non-empty kind tag and a non-empty name tag is
  put into at most one bucket: the first one, in the order class, struct, protocol, enum,
  extension, function/method, var, one of whose keywords occurs in the kind tag
  (case-sensitively), and into none when no keyword occurs. A node without a name tag is
  put into no bucket.
\<close>

theorem classify_first_match_wins:
  "(key_kind node = Some k \<and> key_name node = Some n \<and> k \<noteq> [] \<and> n \<noteq> [] \<longrightarrow>
      classify fp node s =
        (case first_match k of None \<Rightarrow> s | Some b \<Rightarrow> put b (sk_info fp k n node) s) \<and>
      total_symbols (classify fp node s) =
        total_symbols s + (if first_match k = None then 0 else 1)) \<and>
   (\<not> truthy (key_name node) \<longrightarrow> classify fp node s = s)"
proof (intro conjI impI)
  assume tagged: "key_kind node = Some k \<and> key_name node = Some n \<and> k \<noteq> [] \<and> n \<noteq> []"
  then show eq: "classify fp node s =
      (case first_match k of None \<Rightarrow> s | Some b \<Rightarrow> put b (sk_info fp k n node) s)"
    by (simp add: classify_tagged)
  show "total_symbols (classify fp node s) =
      total_symbols s + (if first_match k = None then 0 else 1)"
    unfolding eq by (cases "first_match k") (simp_all add: total_symbols_put)
next
  assume "\<not> truthy (key_name node)"
  then show "classify fp node s = s" by (rule classify_unnamed)
qed

theorem classify_first_match_wins_witness:
  "map name (classes (classify ''a.swift''
       (SKNode (Some ''decl.struct.class'') (Some ''Foo'') None None None None None [])
       no_symbols)) = [''Foo''] \<and>
   structs (classify ''a.swift''
       (SKNode (Some ''decl.struct.class'') (Some ''Foo'') None None None None None [])
       no_symbols) = [] \<and>
   classify ''a.swift''
       (SKNode (Some ''decl.class'') None None None None None None []) no_symbols = no_symbols"
  using classify_first_match_wins [of
      "SKNode (Some ''decl.struct.class'') (Some ''Foo'') None None None None None []"
      "''decl.struct.class''" "''Foo''" "''a.swift''" no_symbols]
    classify_first_match_wins [of
      "SKNode (Some ''decl.class'') None None None None None None []"
      "''decl.class''" "''Foo''" "''a.swift''" no_symbols]
  by (simp add: first_match_def priority_def str_includes_def sublist_Cons_right put_def
      sk_info_def no_symbols_def truthy_def)

section \<open>Initializers and methods\<close>

lemma fold_add_member_initializers:
  "map m_name (initializers (fold add_member subs ms)) =
     map m_name (initializers ms) @
     map (\<lambda>m. or_empty (key_name m))
       (filter (\<lambda>m. (str_includes (or_empty (key_kind m)) ''function'' \<or>
                      str_includes (or_empty (key_kind m)) ''method'') \<and>
                     startsWith (or_empty (key_name m)) ''init'') subs)"
  by (induction subs arbitrary: ms) (simp_all add: add_member_def Let_def)

lemma fold_add_member_methods:
  "map m_name (methods (fold add_member subs ms)) =
     map m_name (methods ms) @
     map (\<lambda>m. or_empty (key_name m))
       (filter (\<lambda>m. (str_includes (or_empty (key_kind m)) ''function'' \<or>
                      str_includes (or_empty (key_kind m)) ''method'') \<and>
                     \<not> startsWith (or_empty (key_name m)) ''init'') subs)"
  by (induction subs arbitrary: ms) (simp_all add: add_member_def Let_def)

lemma fold_add_class_member_initializers:
  "map m_name (initializers (fold (add_class_member acc) cs ms)) =
     map m_name (initializers ms) @
     map (\<lambda>c. or_empty (cl_name c))
       (filter (\<lambda>c. cl_kind c = Some ''ObjCMethodDecl'' \<and> truthy (cl_name c) \<and>
                     (cl_name c = Some ''init'' \<or> startsWith (or_empty (cl_name c)) ''initWith''))
          cs)"
  by (induction cs arbitrary: ms) (simp_all add: add_class_member_def Let_def)

lemma fold_add_class_member_methods:
  "map m_name (methods (fold (add_class_member acc) cs ms)) =
     map m_name (methods ms) @
     map (\<lambda>c. or_empty (cl_name c))
       (filter (\<lambda>c. cl_kind c = Some ''ObjCMethodDecl'' \<and> truthy (cl_name c) \<and>
                     \<not> (cl_name c = Some ''init'' \<or> startsWith (or_empty (cl_name c)) ''initWith''))
          cs)"
  by (induction cs arbitrary: ms) (simp_all add: add_class_member_def Let_def)

lemma fold_add_protocol_member_initializers:
  "initializers (fold (add_protocol_member acc) cs ms) = initializers ms"
  by (induction cs arbitrary: ms) (simp_all add: add_protocol_member_def)

lemma fold_add_protocol_member_methods:
  "map m_name (methods (fold (add_protocol_member acc) cs ms)) =
     map m_name (methods ms) @
     map (\<lambda>c. or_empty (cl_name c))
       (filter (\<lambda>c. cl_kind c = Some ''ObjCMethodDecl'' \<and> truthy (cl_name c)) cs)"
  by (induction cs arbitrary: ms) (simp_all add: add_protocol_member_def)

section \<open>The buckets of a Shape A unit in declaration order\<close>

lemma get_put:
  "get b (put b' info s) =
     get b s @ (if b = b'
                then [if b = B_extensions then info\<lparr>extendedType := Some (name info)\<rparr> else info]
                else [])"
  by (cases b; cases b') (simp_all add: get_def put_def)

lemma classify_node_bucket:
  "classify fp node s =
     (case node_bucket node of
        None \<Rightarrow> s
      | Some b \<Rightarrow> put b (sk_info fp (or_empty (key_kind node)) (or_empty (key_name node)) node) s)"
proof (cases "truthy (key_kind node) \<and> truthy (key_name node)")
  case True
  then obtain k n where "key_kind node = Some k" "key_name node = Some n" "k \<noteq> []" "n \<noteq> []"
    by (auto simp: truthy_def split: option.splits)
  then show ?thesis
    using True
    by (cases "first_match k") (simp_all add: classify_tagged node_bucket_def or_empty_def)
next
  case False
  then show ?thesis
    by (auto simp: classify_def node_bucket_def truthy_def split: option.splits)
qed

lemma get_classify:
  "get b (classify fp node s) =
     get b s @ (if node_bucket node = Some b then [node_entry fp b node] else [])"
  by (cases "node_bucket node") (simp_all add: classify_node_bucket get_put node_entry_def Let_def)

lemma get_fold_classify:
  "get b (fold (classify fp) ns s) =
     get b s @ map (node_entry fp b) (filter (\<lambda>n. node_bucket n = Some b) ns)"
  by (induction ns arbitrary: s) (simp_all add: get_classify)

lemma fold_walk_concat:
  assumes "\<And>c s. c \<in> set subs \<Longrightarrow> walk fp c s = fold (classify fp) (preorder c) s"
  shows "fold (walk fp) subs s = fold (classify fp) (concat (map preorder subs)) s"
  using assms by (induction subs arbitrary: s) simp_all

lemma walk_preorder: "walk fp ast s = fold (classify fp) (preorder ast) s"
proof (induction fp ast s rule: walk.induct)
  case (1 filePath k n i a t off l subs s)
  have "fold (walk filePath) subs s' =
      fold (classify filePath) (concat (map preorder subs)) s'" for s'
    using "1.IH" by (intro fold_walk_concat)
  then show ?case by simp
qed

lemma get_extractSymbols:
  "get b (extractSymbols ast fp) =
     map (node_entry fp b) (filter (\<lambda>n. node_bucket n = Some b) (preorder ast))"
  by (simp add: extractSymbols_def walk_preorder get_fold_classify)
    (cases b; simp add: get_def no_symbols_def)

lemma all_buckets_get: "set (concat (all_buckets s)) = (\<Union>b. set (get b s))"
proof -
  have "UNIV =
      {B_classes, B_structs, B_protocols, B_enums, B_extensions, B_functions, B_variables}"
    using bucket_name.exhaust by auto
  then have "(\<Union>b. set (get b s)) =
      (\<Union>b \<in> {B_classes, B_structs, B_protocols, B_enums, B_extensions, B_functions,
               B_variables}. set (get b s))"
    by simp
  also have "\<dots> = set (concat (all_buckets s))"
    by (auto simp: all_buckets_def get_def)
  finally show ?thesis by simp
qed

lemma node_entry_name: "node_bucket n = Some b \<Longrightarrow> name (node_entry fp b n) \<noteq> []"
  by (auto simp: node_bucket_def node_entry_def sk_info_def truthy_def or_empty_def Let_def
      split: option.splits if_splits)

lemma extractSymbols_named:
  "i \<in> set (concat (all_buckets (extractSymbols ast fp))) \<Longrightarrow> name i \<noteq> []"
  unfolding all_buckets_get by (auto simp: get_extractSymbols node_entry_name)

section \<open>Names of extracted symbols\<close>

lemma fold_invariant:
  assumes "\<And>x s. x \<in> set xs \<Longrightarrow> P s \<Longrightarrow> P (f x s)" and "P s"
  shows "P (fold f xs s)"
  using assms by (induction xs arbitrary: s) simp_all

lemma named_extractSymbols: "named (extractSymbols ast fp)"
  using extractSymbols_named by (auto simp: named_def)

lemma named_add:
  "named s \<Longrightarrow> name i \<noteq> [] \<Longrightarrow> named (s\<lparr>classes := classes s @ [i]\<rparr>)"
  "named s \<Longrightarrow> name i \<noteq> [] \<Longrightarrow> named (s\<lparr>protocols := protocols s @ [i]\<rparr>)"
  "named s \<Longrightarrow> name i \<noteq> [] \<Longrightarrow> named (s\<lparr>extensions := extensions s @ [i]\<rparr>)"
  by (auto simp: named_def all_buckets_def)

lemma truthy_or_empty: "truthy v \<Longrightarrow> or_empty v \<noteq> []"
  by (auto simp: truthy_def or_empty_def split: option.splits)

lemma walk_objc_named: "named s \<Longrightarrow> named (walk_objc fp node s)"
proof (induction fp node s rule: walk_objc.induct)
  case (1 filePath k n imp sp ps iface off b e rt ty inner s)
  let ?node = "ClangNode k n imp sp ps iface off b e rt ty inner"
  let ?s1 = "if k = Some ''ObjCInterfaceDecl'' \<and> truthy n \<and> \<not> imp
             then s\<lparr>classes := classes s @
                    [objc_info filePath (or_empty n) ''source.lang.objc.decl.class''
                       (super_names sp @ protocol_names ps) ?node]\<rparr>
             else s"
  let ?s2 = "if k = Some ''ObjCProtocolDecl'' \<and> truthy n \<and> \<not> imp
             then ?s1\<lparr>protocols := protocols ?s1 @
                    [objc_info filePath (or_empty n) ''source.lang.objc.decl.protocol''
                       (protocol_names ps) ?node]\<rparr>
             else ?s1"
  have s1: "named ?s1"
    using "1.prems" by (auto intro!: named_add simp: objc_info_def truthy_or_empty)
  have s2: "named ?s2"
    using s1 by (auto intro!: named_add simp: objc_info_def truthy_or_empty simp del: )
  show ?case
  proof (cases "k = Some ''ObjCCategoryDecl'' \<and> truthy n \<and> \<not> imp")
    case False
    have "named (fold (walk_objc filePath) inner ?s2)"
      using s2 "1.IH"(2) False by (intro fold_invariant [where P = named]) auto
    then show ?thesis
      by (subst walk_objc.simps) (simp only: Let_def if_not_P [OF False] if_True if_False)
  next
    case cat: True
    show ?thesis
    proof (cases "truthy (case iface of None \<Rightarrow> None | Some r \<Rightarrow> ref_name r)")
      case False
      with s2 show ?thesis
        by (subst walk_objc.simps) (simp only: Let_def if_P [OF cat] if_not_P [OF False] if_True if_False)
    next
      case True
      let ?iname = "or_empty (case iface of None \<Rightarrow> None | Some r \<Rightarrow> ref_name r)"
      let ?s3 = "?s2\<lparr>extensions := extensions ?s2 @
                 [(objc_info filePath (?iname @ ''('' @ or_empty n @ '')'')
                     ''source.lang.objc.decl.extension'' (protocol_names ps) ?node)
                   \<lparr>extendedType := Some ?iname\<rparr>]\<rparr>"
      have s3: "named ?s3"
        using s2 by (intro named_add) (simp_all add: objc_info_def)
      have "named (fold (walk_objc filePath) inner ?s3)"
        using s3 "1.IH"(1) cat True by (intro fold_invariant [where P = named]) auto
      then show ?thesis
        by (subst walk_objc.simps) (simp only: Let_def if_P [OF cat] if_P [OF True] if_True if_False)
    qed
  qed
qed

lemma named_extractObjCSymbols: "named (extractObjCSymbols ast fp)"
  unfolding extractObjCSymbols_def
  by (rule walk_objc_named) (simp add: named_def no_symbols_def all_buckets_def)

lemma walk_empty_name:
  "walk fp (SKNode k (Some []) i a t off l subs) s = walk fp (SKNode k None i a t off l subs) s"
  by (simp add: classify_unnamed truthy_def)

lemma walk_objc_empty_name:
  "walk_objc fp (ClangNode k (Some []) imp sp ps iface off b e rt ty inner) s =
   walk_objc fp (ClangNode k None imp sp ps iface off b e rt ty inner) s"
  by (simp add: truthy_def)

section \<open>Construction of the type map\<close>

lemma last_wins_append: "last_wins ys (last_wins xs v) = last_wins (xs @ ys) v"
  by (simp add: last_wins_def)

lemma add_types_apply:
  "add_types rel k syms tm n =
     last_wins (map (\<lambda>c. \<lparr>te_file = rel, te_kind = k, te_symbol = c\<rparr>)
                  (filter (\<lambda>c. name c = n) syms)) (tm n)"
  by (induction syms arbitrary: tm rule: rev_induct) (simp_all add: add_types_def last_wins_def)

lemma add_file_types_apply:
  "add_file_types repo u tm n = last_wins (type_entries repo u n) (tm n)"
  by (simp add: add_file_types_def add_types_apply last_wins_append type_entries_def Let_def)

lemma fold_add_file_types_apply:
  "fold (add_file_types repo) fs tm n =
     last_wins (concat (map (\<lambda>u. type_entries repo u n) fs)) (tm n)"
proof (induction fs arbitrary: tm)
  case Nil
  show ?case by (simp add: last_wins_def)
next
  case (Cons u fs)
  have "fold (add_file_types repo) (u # fs) tm n =
      fold (add_file_types repo) fs (add_file_types repo u tm) n"
    by simp
  also have "\<dots> = last_wins (concat (map (\<lambda>u. type_entries repo u n) fs))
      (add_file_types repo u tm n)"
    by (rule Cons.IH)
  also have "\<dots> = last_wins (concat (map (\<lambda>u. type_entries repo u n) (u # fs))) (tm n)"
    by (simp add: add_file_types_apply last_wins_append)
  finally show ?case .
qed

lemma build_typeMap_apply:
  "build_typeMap repo fs n = last_wins (concat (map (\<lambda>u. type_entries repo u n) fs)) None"
  by (simp add: build_typeMap_def fold_add_file_types_apply)

section \<open>Construction of the indexes\<close>

lemma entries_upd [simp]: "entries (m(k \<mapsto> v)) k' = (if k' = k then v else entries m k')"
  by (simp add: entries_def)

lemma index_symbol_Inr:
  assumes "index_symbol rel k s idx = Inr idx'"
  shows "entries (byName idx') n =
           entries (byName idx) n @ (if name s = n then [\<lparr>loc_file = rel, loc_kind = k\<rparr>] else [])"
    and "entries (byKind idx') k' = entries (byKind idx) k' @ (if k' = k then [name s] else [])"
    and "entries (byFile idx') r = entries (byFile idx) r @ (if r = rel then [name s] else [])"
  using assms by (auto simp: index_symbol_def split: js_val.splits)

lemma index_all_Inr:
  assumes "index_all rel k syms idx = Inr idx'"
  shows "entries (byName idx') n =
           entries (byName idx) n @
           map (\<lambda>s. \<lparr>loc_file = rel, loc_kind = k\<rparr>) (filter (\<lambda>s. name s = n) syms)"
    and "entries (byKind idx') k' = entries (byKind idx) k' @ (if k' = k then map name syms else [])"
    and "entries (byFile idx') r = entries (byFile idx) r @ (if r = rel then map name syms else [])"
  using assms
proof (induction syms arbitrary: idx)
  case Nil
  { case 1 then show ?case by simp }
  { case 2 then show ?case by simp }
  { case 3 then show ?case by simp }
next
  case (Cons s syms)
  { case 1
    then obtain i1 where a: "index_symbol rel k s idx = Inr i1" and b: "index_all rel k syms i1 = Inr idx'"
      by (auto split: sum.splits)
    show ?case by (simp add: Cons.IH(1) [OF b] index_symbol_Inr(1) [OF a]) }
  { case 2
    then obtain i1 where a: "index_symbol rel k s idx = Inr i1" and b: "index_all rel k syms i1 = Inr idx'"
      by (auto split: sum.splits)
    show ?case by (simp add: Cons.IH(2) [OF b] index_symbol_Inr(2) [OF a]) }
  { case 3
    then obtain i1 where a: "index_symbol rel k s idx = Inr i1" and b: "index_all rel k syms i1 = Inr idx'"
      by (auto split: sum.splits)
    show ?case by (simp add: Cons.IH(3) [OF b] index_symbol_Inr(3) [OF a]) }
qed


lemma processSymbols_Inr:
  assumes "processSymbols rel syms k idx = Inr idx'"
  shows "entries (byName idx') n =
           entries (byName idx) n @
           map (\<lambda>s. \<lparr>loc_file = rel, loc_kind = k\<rparr>) (filter (\<lambda>s. name s = n) syms)"
    and "entries (byKind idx') k' = entries (byKind idx) k' @ (if k' = k then map name syms else [])"
    and "entries (byFile idx') r = entries (byFile idx) r @ (if r = rel then map name syms else [])"
proof -
  define i0 where "i0 = (if byKind idx k = None then idx\<lparr>byKind := (byKind idx)(k \<mapsto> [])\<rparr> else idx)"
  have a: "index_all rel k syms i0 = Inr idx'"
    using assms by (simp add: processSymbols_def i0_def)
  have b: "byName i0 = byName idx" "byFile i0 = byFile idx"
    "entries (byKind i0) k' = entries (byKind idx) k'"
    by (auto simp: i0_def entries_def)
  show "entries (byName idx') n =
      entries (byName idx) n @
      map (\<lambda>s. \<lparr>loc_file = rel, loc_kind = k\<rparr>) (filter (\<lambda>s. name s = n) syms)"
    using index_all_Inr(1) [OF a] b by simp
  show "entries (byKind idx') k' = entries (byKind idx) k' @ (if k' = k then map name syms else [])"
    using index_all_Inr(2) [OF a] b by simp
  show "entries (byFile idx') r = entries (byFile idx) r @ (if r = rel then map name syms else [])"
    using index_all_Inr(3) [OF a] b by simp
qed

lemma index_file_Inr:
  assumes "index_file repo u idx = Inr idx'"
  shows "entries (byName idx') n = entries (byName idx) n @ name_locations repo u n"
    and "entries (byKind idx') k = entries (byKind idx) k @ map name (of_kind k (symbols (snd u)))"
    and "entries (byFile idx') r =
           (if r = getRelativePath repo (fst u) then indexed_names (symbols (snd u))
            else entries (byFile idx) r)"
proof -
  let ?rel = "getRelativePath repo (fst u)"
  let ?syms = "symbols (snd u)"
  let ?i0 = "idx\<lparr>byFile := (byFile idx)(?rel \<mapsto> [])\<rparr>"
  from assms obtain i1 i2 i3 i4 where
    1: "processSymbols ?rel (classes ?syms) Class ?i0 = Inr i1" and
    2: "processSymbols ?rel (structs ?syms) Struct i1 = Inr i2" and
    3: "processSymbols ?rel (protocols ?syms) Protocol i2 = Inr i3" and
    4: "processSymbols ?rel (enums ?syms) Enum i3 = Inr i4" and
    5: "processSymbols ?rel (functions ?syms) Function i4 = Inr idx'"
    by (auto simp: index_file_def and_then_def Let_def split: sum.splits)
  show "entries (byName idx') n = entries (byName idx) n @ name_locations repo u n"
    by (simp add: processSymbols_Inr(1) [OF 5] processSymbols_Inr(1) [OF 4]
        processSymbols_Inr(1) [OF 3] processSymbols_Inr(1) [OF 2] processSymbols_Inr(1) [OF 1]
        name_locations_def index_order_def of_kind_def)
  show "entries (byKind idx') k = entries (byKind idx) k @ map name (of_kind k (symbols (snd u)))"
    by (cases k)
      (simp_all add: processSymbols_Inr(2) [OF 5] processSymbols_Inr(2) [OF 4]
        processSymbols_Inr(2) [OF 3] processSymbols_Inr(2) [OF 2] processSymbols_Inr(2) [OF 1]
        of_kind_def)
  show "entries (byFile idx') r =
      (if r = ?rel then indexed_names (symbols (snd u)) else entries (byFile idx) r)"
    by (simp add: processSymbols_Inr(3) [OF 5] processSymbols_Inr(3) [OF 4]
        processSymbols_Inr(3) [OF 3] processSymbols_Inr(3) [OF 2] processSymbols_Inr(3) [OF 1]
        indexed_names_def index_order_def of_kind_def)
qed

lemma index_files_byName:
  "index_files repo fs idx = Inr idx' \<Longrightarrow>
   entries (byName idx') n =
     entries (byName idx) n @ concat (map (\<lambda>u. name_locations repo u n) fs)"
proof (induction fs arbitrary: idx)
  case Nil
  then show ?case by simp
next
  case (Cons u fs)
  then obtain i1 where a: "index_file repo u idx = Inr i1" and b: "index_files repo fs i1 = Inr idx'"
    by (auto split: sum.splits)
  show ?case by (simp add: Cons.IH [OF b] index_file_Inr(1) [OF a])
qed

lemma index_files_byKind:
  "index_files repo fs idx = Inr idx' \<Longrightarrow>
   entries (byKind idx') k =
     entries (byKind idx) k @ concat (map (\<lambda>u. map name (of_kind k (symbols (snd u)))) fs)"
proof (induction fs arbitrary: idx)
  case Nil
  then show ?case by simp
next
  case (Cons u fs)
  then obtain i1 where a: "index_file repo u idx = Inr i1" and b: "index_files repo fs i1 = Inr idx'"
    by (auto split: sum.splits)
  show ?case by (simp add: Cons.IH [OF b] index_file_Inr(2) [OF a])
qed

lemma index_files_byFile_other:
  "index_files repo fs idx = Inr idx' \<Longrightarrow>
   r \<notin> (\<lambda>u. getRelativePath repo (fst u)) ` set fs \<Longrightarrow>
   entries (byFile idx') r = entries (byFile idx) r"
proof (induction fs arbitrary: idx)
  case Nil
  then show ?case by simp
next
  case (Cons u fs)
  from Cons.prems(1) obtain i1 where
    a: "index_file repo u idx = Inr i1" and b: "index_files repo fs i1 = Inr idx'"
    by (auto split: sum.splits)
  from Cons.prems(2) show ?case
    by (simp add: Cons.IH [OF b] index_file_Inr(3) [OF a])
qed

lemma index_files_byFile:
  "index_files repo fs idx = Inr idx' \<Longrightarrow>
   distinct (map (\<lambda>u. getRelativePath repo (fst u)) fs) \<Longrightarrow> u \<in> set fs \<Longrightarrow>
   entries (byFile idx') (getRelativePath repo (fst u)) = indexed_names (symbols (snd u))"
proof (induction fs arbitrary: idx)
  case Nil
  then show ?case by simp
next
  case (Cons v fs)
  from Cons.prems(1) obtain i1 where
    a: "index_file repo v idx = Inr i1" and b: "index_files repo fs i1 = Inr idx'"
    by (auto split: sum.splits)
  show ?case
  proof (cases "u \<in> set fs")
    case True
    with Cons.prems(2) show ?thesis by (intro Cons.IH [OF b]) simp_all
  next
    case False
    with Cons.prems(3) have "u = v" by simp
    with Cons.prems(2) have "getRelativePath repo (fst u) \<notin> (\<lambda>u. getRelativePath repo (fst u)) ` set fs"
      by simp
    from index_files_byFile_other [OF b this] show ?thesis
      by (simp add: index_file_Inr(3) [OF a] \<open>u = v\<close>)
  qed
qed

lemma index_files_byFile_subset:
  "index_files repo fs idx = Inr idx' \<Longrightarrow>
   set (entries (byFile idx') r) \<subseteq>
     set (entries (byFile idx) r) \<union> (\<Union>u \<in> set fs. set (indexed_names (symbols (snd u))))"
proof (induction fs arbitrary: idx)
  case Nil
  then show ?case by simp
next
  case (Cons v fs)
  from Cons.prems(1) obtain i1 where
    a: "index_file repo v idx = Inr i1" and b: "index_files repo fs i1 = Inr idx'"
    by (auto split: sum.splits)
  from Cons.IH [OF b] show ?case
    by (auto simp: index_file_Inr(3) [OF a] split: if_splits)
qed

text \<open>The own keys of \<^verbatim>\<open>byName\<close>.\<close>

lemma index_symbol_dom:
  "index_symbol rel k s idx = Inr idx' \<Longrightarrow> dom (byName idx') = insert (name s) (dom (byName idx))"
  by (auto simp: index_symbol_def split: js_val.splits)

lemma index_all_dom:
  "index_all rel k syms idx = Inr idx' \<Longrightarrow> dom (byName idx') = dom (byName idx) \<union> name ` set syms"
proof (induction syms arbitrary: idx)
  case Nil
  then show ?case by simp
next
  case (Cons s syms)
  then obtain i1 where a: "index_symbol rel k s idx = Inr i1" and b: "index_all rel k syms i1 = Inr idx'"
    by (auto split: sum.splits)
  show ?case by (simp add: Cons.IH [OF b] index_symbol_dom [OF a])
qed

lemma processSymbols_dom:
  "processSymbols rel syms k idx = Inr idx' \<Longrightarrow> dom (byName idx') = dom (byName idx) \<union> name ` set syms"
proof -
  assume a: "processSymbols rel syms k idx = Inr idx'"
  define i0 where "i0 = (if byKind idx k = None then idx\<lparr>byKind := (byKind idx)(k \<mapsto> [])\<rparr> else idx)"
  have "index_all rel k syms i0 = Inr idx'"
    using a by (simp add: processSymbols_def i0_def)
  from index_all_dom [OF this] show ?thesis by (simp add: i0_def)
qed

lemma index_file_dom:
  assumes "index_file repo u idx = Inr idx'"
  shows "dom (byName idx') = dom (byName idx) \<union> set (indexed_names (symbols (snd u)))"
proof -
  let ?rel = "getRelativePath repo (fst u)"
  let ?syms = "symbols (snd u)"
  let ?i0 = "idx\<lparr>byFile := (byFile idx)(?rel \<mapsto> [])\<rparr>"
  from assms obtain i1 i2 i3 i4 where
    1: "processSymbols ?rel (classes ?syms) Class ?i0 = Inr i1" and
    2: "processSymbols ?rel (structs ?syms) Struct i1 = Inr i2" and
    3: "processSymbols ?rel (protocols ?syms) Protocol i2 = Inr i3" and
    4: "processSymbols ?rel (enums ?syms) Enum i3 = Inr i4" and
    5: "processSymbols ?rel (functions ?syms) Function i4 = Inr idx'"
    by (auto simp: index_file_def and_then_def Let_def split: sum.splits)
  show ?thesis
    by (simp add: processSymbols_dom [OF 5] processSymbols_dom [OF 4] processSymbols_dom [OF 3]
        processSymbols_dom [OF 2] processSymbols_dom [OF 1] indexed_names_def index_order_def
        of_kind_def Un_assoc)
qed

lemma index_files_dom:
  "index_files repo fs idx = Inr idx' \<Longrightarrow>
   dom (byName idx') = dom (byName idx) \<union> (\<Union>u \<in> set fs. set (indexed_names (symbols (snd u))))"
proof (induction fs arbitrary: idx)
  case Nil
  then show ?case by simp
next
  case (Cons v fs)
  from Cons.prems(1) obtain i1 where
    a: "index_file repo v idx = Inr i1" and b: "index_files repo fs i1 = Inr idx'"
    by (auto split: sum.splits)
  show ?case by (simp add: Cons.IH [OF b] index_file_dom [OF a] Un_assoc)
qed

section \<open>Evaluation of the fixtures\<close>

lemmas extract_eval = sk_decl_def sk_root_def cl_decl_def cl_root_def extract_unit_def
  extractSymbols_def extractObjCSymbols_def objc_info_def objc_access_def endsWith_def
  suffix_to_prefix super_names_def protocol_names_def or_empty_def truthy_def
  calculateRangeLength_def classify_def str_includes_def sublist_Cons_right no_symbols_def
  sk_info_def swift_access_def getRelativePath_def Let_def

lemmas build_eval = init_swift_repo_def build_graph_def index_file_def processSymbols_def
  index_symbol_def js_get_def object_prototype_def and_then_def no_indexes_def entries_def
  build_edges_def file_edges_def edge_for_def build_typeMap_def add_file_types_def add_types_def

lemmas query_eval = findSymbol_def explain_symbol_def index_lookup_def join_paths_def
  kindToPlural_def bucket_def scan_file_def usesSymbol_def all_buckets_def typeMap_fallback_def

section \<open>Edges\<close>

text \<open>
  Claim C1 against the code. The class \<^verbatim>\<open>Foo\<close> of \<open>proto_units\<close> inherits from
  \<^verbatim>\<open>Base\<close>, which the unit declares, and from \<^verbatim>\<open>toString\<close>, which no unit declares.
  The type map has no entry \<^verbatim>\<open>toString\<close>, yet two edges are emitted: the test
  \<^verbatim>\<open>typeMap[inherited]\<close> finds the method that every object inherits, and the second
  edge has no target file.
\<close>

theorem inherited_member_yields_dangling_edge:
  "\<not> isl (init_swift_repo ''/r'' proto_units) \<and>
   typeMap (projr (init_swift_repo ''/r'' proto_units)) ''toString'' = None \<and>
   edges (projr (init_swift_repo ''/r'' proto_units)) =
     [\<lparr>e_from = ''A.swift'', e_to = Some ''A.swift'', fromSymbol = ''Foo'', toSymbol = ''Base''\<rparr>,
      \<lparr>e_from = ''A.swift'', e_to = None, fromSymbol = ''Foo'', toSymbol = ''toString''\<rparr>]"
  by (simp add: proto_units_def extract_eval build_eval)

section \<open>Fields of a constructed graph\<close>

lemma build_graph_fields:
  assumes "build_graph repo fs = Inr g"
  shows "typeMap g = build_typeMap repo fs"
    and "edges g = build_edges repo (build_typeMap repo fs) fs"
    and "files g = fs" and "repoPath g = repo"
    and "index_files repo fs no_indexes = Inr (indexes g)"
  using assms by (auto simp: build_graph_def Let_def split: sum.splits)

lemma entries_no_indexes [simp]:
  "entries (byName no_indexes) n = []" "entries (byKind no_indexes) k = []"
  "entries (byFile no_indexes) r = []"
  by (simp_all add: entries_def no_indexes_def)

lemma type_entries_file:
  "e \<in> set (type_entries repo u n) \<Longrightarrow> te_file e = getRelativePath repo (fst u)"
  by (auto simp: type_entries_def Let_def)

lemma type_entries_symbol:
  "e \<in> set (type_entries repo u n) \<Longrightarrow>
   name (te_symbol e) = n \<and> te_symbol e \<in> set (concat (all_buckets (symbols (snd u))))"
  by (auto simp: type_entries_def Let_def all_buckets_def)

lemma name_locations_declared:
  "type_entries repo u n \<noteq> [] \<Longrightarrow> name_locations repo u n \<noteq> []"
  by (auto simp: type_entries_def name_locations_def index_order_def of_kind_def Let_def)

section \<open>Resolving a name\<close>

text \<open>
  Claim C3 against the code. On the graph built from \<open>proto_units\<close>, which declares no
  symbol \<^verbatim>\<open>constructor\<close>, \<open>findSymbol\<close> raises instead of returning not-found:
  \<^verbatim>\<open>byName['constructor']\<close> is the inherited function \<^verbatim>\<open>Object\<close>, whose \<^verbatim>\<open>length\<close> is 1.
\<close>

theorem findSymbol_constructor_raises:
  "\<not> isl (init_swift_repo ''/r'' proto_units) \<and>
   byName (indexes (projr (init_swift_repo ''/r'' proto_units))) ''constructor'' = None \<and>
   typeMap (projr (init_swift_repo ''/r'' proto_units)) ''constructor'' = None \<and>
   findSymbol join_paths (projr (init_swift_repo ''/r'' proto_units)) ''constructor'' =
     Inl TypeError"
  by (simp add: proto_units_def extract_eval build_eval findSymbol_def)

section \<open>Extensions of a symbol\<close>

lemma swift_extension_is_reported:
  "explain_symbol join_paths (projr (init_swift_repo ''/r'' extension_units)) ''Foo'' =
     Inr (Some \<lparr>inheritedBy = [],
                 extendedIn = [\<lparr>x_file = ''Foo+Bar.swift'', conformances = [''Bar'']\<rparr>],
                 referencedIn = []\<rparr>)"
  by (auto simp add: extension_units_def extract_eval build_eval query_eval)

text \<open>
  Claim C4 against the code. For the Swift fixture the extension of \<^verbatim>\<open>Foo\<close> is
  reported with its conformance (\<open>swift_extension_is_reported\<close>); for the Objective-C
  fixture the category of \<^verbatim>\<open>Foo\<close> is stored under the name \<^verbatim>\<open>Foo(Cat)\<close>, with
  \<^verbatim>\<open>Foo\<close> as its extended type, and is not reported.
\<close>

theorem objc_category_is_not_reported:
  "map name (extensions (symbols (snd (extract_unit (category_units ! 1))))) = [''Foo(Cat)''] \<and>
   map extendedType (extensions (symbols (snd (extract_unit (category_units ! 1))))) =
     [Some ''Foo''] \<and>
   explain_symbol join_paths (projr (init_swift_repo ''/r'' category_units)) ''Foo'' =
     Inr (Some \<lparr>inheritedBy = [], extendedIn = [], referencedIn = []\<rparr>)"
  by (auto simp add: category_units_def extract_eval build_eval query_eval)

section \<open>The file index\<close>

lemma of_kind_indexed: "s \<in> set (of_kind k syms) \<Longrightarrow> name s \<in> set (indexed_names syms)"
  by (cases k) (auto simp: indexed_names_def index_order_def)

text \<open>
  Claim C5, as stated, fails: the unit \<^verbatim>\<open>Foo+Bar.swift\<close> of \<open>extension_units\<close> declares
  the extension \<^verbatim>\<open>Foo\<close>, and its \<^verbatim>\<open>byFile\<close> list is empty.
\<close>

theorem extension_is_not_indexed:
  "\<not> isl (init_swift_repo ''/r'' extension_units) \<and>
   map name (extensions (symbols (snd (extract_unit (extension_units ! 1))))) = [''Foo''] \<and>
   byFile (indexes (projr (init_swift_repo ''/r'' extension_units))) ''Foo+Bar.swift'' = Some []"
  by (simp add: extension_units_def extract_eval build_eval)

text \<open>
  Claim C5, amended. In a constructed graph whose units have pairwise distinct relative
  paths, \<^verbatim>\<open>byFile[U]\<close> is, for every unit \<open>U\<close>, the list of the names of the symbols in
  the class, struct, protocol, enum and function buckets of \<open>U\<close>; so it contains the name
  of every symbol of these five buckets.
\<close>

theorem byFile_lists_indexed_symbols:
  assumes "build_graph repo fs = Inr g"
    and "distinct (map (\<lambda>u. getRelativePath repo (fst u)) fs)"
    and "u \<in> set fs"
    and "s \<in> set (of_kind k (symbols (snd u)))"
  shows "entries (byFile (indexes g)) (getRelativePath repo (fst u)) =
           indexed_names (symbols (snd u)) \<and>
         name s \<in> set (entries (byFile (indexes g)) (getRelativePath repo (fst u)))"
proof -
  have "entries (byFile (indexes g)) (getRelativePath repo (fst u)) =
      indexed_names (symbols (snd u))"
    using index_files_byFile [OF build_graph_fields(5) [OF assms(1)] assms(2,3)] .
  with of_kind_indexed [OF assms(4)] show ?thesis by simp
qed

theorem byFile_lists_indexed_symbols_witness:
  "entries (byFile (indexes (projr (init_swift_repo ''/r'' proto_units)))) ''A.swift'' =
     [''Base'', ''Foo''] \<and>
   ''Foo'' \<in> set (entries (byFile (indexes (projr (init_swift_repo ''/r'' proto_units))))
      ''A.swift'')"
proof -
  let ?fs = "map extract_unit proto_units"
  let ?g = "projr (build_graph ''/r'' ?fs)"
  let ?s = "\<lparr>name = ''Foo'', kind = ''source.lang.swift.decl.class'', file = ''/r/A.swift'',
     inheritedTypes = [''Base'', ''toString''], accessibility = None, typeName = None,
     offset = None, len = None, extendedType = None\<rparr>"
  have ok: "build_graph ''/r'' ?fs = Inr ?g"
    by (simp add: proto_units_def extract_eval build_eval)
  have d: "distinct (map (\<lambda>u. getRelativePath ''/r'' (fst u)) ?fs)"
    by (simp add: proto_units_def extract_unit_def)
  have u: "extract_unit (proto_units ! 0) \<in> set ?fs"
    by (simp add: proto_units_def)
  have s: "?s \<in> set (of_kind Class (symbols (snd (extract_unit (proto_units ! 0)))))"
    by (simp add: proto_units_def of_kind_def extract_eval)
  from byFile_lists_indexed_symbols [OF ok d u s] show ?thesis
    by (simp add: init_swift_repo_def proto_units_def indexed_names_def index_order_def
        of_kind_def extract_eval)
qed

section \<open>Every stored name is non-empty\<close>

lemma indexed_names_bucket:
  "n \<in> set (indexed_names syms) \<Longrightarrow> \<exists>s \<in> set (concat (all_buckets syms)). n = name s"
  by (auto simp: indexed_names_def index_order_def of_kind_def all_buckets_def)

lemma named_indexed: "named syms \<Longrightarrow> n \<in> set (indexed_names syms) \<Longrightarrow> n \<noteq> []"
proof -
  assume nm: "named syms" and n: "n \<in> set (indexed_names syms)"
  from indexed_names_bucket [OF n] obtain s where
    "s \<in> set (concat (all_buckets syms))" "n = name s"
    by blast
  with nm show "n \<noteq> []" by (auto simp: named_def)
qed

lemma named_of_kind: "named syms \<Longrightarrow> s \<in> set (of_kind k syms) \<Longrightarrow> name s \<noteq> []"
  by (rule named_indexed [OF _ of_kind_indexed])

lemma named_extract_unit: "named (symbols (snd (extract_unit u)))"
  by (cases "snd u")
    (simp_all add: extract_unit_def named_extractSymbols named_extractObjCSymbols)

lemma last_wins_None_Some: "last_wins es None = Some e \<Longrightarrow> e \<in> set es"
  by (auto simp: last_wins_def split: if_splits)

lemma typeMap_entry_named:
  assumes "build_graph repo fs = Inr g" and "\<forall>u \<in> set fs. named (symbols (snd u))"
    and "typeMap g n = Some e"
  shows "n \<noteq> [] \<and> name (te_symbol e) = n"
proof -
  from assms(3) have "last_wins (concat (map (\<lambda>u. type_entries repo u n) fs)) None = Some e"
    by (simp add: build_graph_fields(1) [OF assms(1)] build_typeMap_apply)
  then have "e \<in> set (concat (map (\<lambda>u. type_entries repo u n) fs))"
    by (rule last_wins_None_Some)
  then obtain u where u: "u \<in> set fs" and e: "e \<in> set (type_entries repo u n)"
    by auto
  from type_entries_symbol [OF e] assms(2) u show ?thesis
    by (auto simp: named_def)
qed

lemma byName_key_named:
  assumes "build_graph repo fs = Inr g" and "\<forall>u \<in> set fs. named (symbols (snd u))"
    and "n \<in> dom (byName (indexes g))"
  shows "n \<noteq> []"
proof -
  from assms(3) index_files_dom [OF build_graph_fields(5) [OF assms(1)]]
  obtain u where "u \<in> set fs" "n \<in> set (indexed_names (symbols (snd u)))"
    by (auto simp: no_indexes_def)
  with assms(2) show ?thesis by (intro named_indexed [where syms = "symbols (snd u)"]) simp_all
qed

lemma byKind_entry_named:
  assumes "build_graph repo fs = Inr g" and "\<forall>u \<in> set fs. named (symbols (snd u))"
    and "n \<in> set (entries (byKind (indexes g)) k)"
  shows "n \<noteq> []"
proof -
  from assms(3) index_files_byKind [OF build_graph_fields(5) [OF assms(1)], of k]
  obtain u s where "u \<in> set fs" "s \<in> set (of_kind k (symbols (snd u)))" "n = name s"
    by auto
  with assms(2) show ?thesis using named_of_kind [of "symbols (snd u)" s k] by simp
qed

lemma byFile_entry_named:
  assumes "build_graph repo fs = Inr g" and "\<forall>u \<in> set fs. named (symbols (snd u))"
    and "n \<in> set (entries (byFile (indexes g)) r)"
  shows "n \<noteq> []"
proof -
  from assms(3) index_files_byFile_subset [OF build_graph_fields(5) [OF assms(1)], of r]
  obtain u where "u \<in> set fs" "n \<in> set (indexed_names (symbols (snd u)))"
    by auto
  with assms(2) show ?thesis by (intro named_indexed [where syms = "symbols (snd u)"]) simp_all
qed

text \<open>
  Claim C10. Every symbol that either extractor puts into a bucket has a non-empty name; a
  node whose name tag is the empty string is treated by either extractor exactly as the
  same node without a name tag; and in a graph constructed from extracted units every
  key and symbol of the type map, every key of \<^verbatim>\<open>byName\<close> and every name listed in
  \<^verbatim>\<open>byKind\<close> and \<^verbatim>\<open>byFile\<close> is non-empty.
\<close>

theorem stored_names_are_non_empty:
  "named (extractSymbols ast fp) \<and>
   named (extractObjCSymbols cast fp) \<and>
   walk fp (SKNode k (Some []) i a t off l subs) s = walk fp (SKNode k None i a t off l subs) s \<and>
   walk_objc fp (ClangNode ck (Some []) imp sp ps iface coff b e rt ty inner) s =
     walk_objc fp (ClangNode ck None imp sp ps iface coff b e rt ty inner) s \<and>
   (init_swift_repo repo units = Inr g \<longrightarrow>
      (\<forall>n te. typeMap g n = Some te \<longrightarrow> n \<noteq> [] \<and> name (te_symbol te) = n) \<and>
      (\<forall>n \<in> dom (byName (indexes g)). n \<noteq> []) \<and>
      (\<forall>kd. \<forall>n \<in> set (entries (byKind (indexes g)) kd). n \<noteq> []) \<and>
      (\<forall>r. \<forall>n \<in> set (entries (byFile (indexes g)) r). n \<noteq> []))"
proof (intro conjI impI)
  assume "init_swift_repo repo units = Inr g"
  then have g: "build_graph repo (map extract_unit units) = Inr g"
    by (simp add: init_swift_repo_def)
  have nm: "\<forall>u \<in> set (map extract_unit units). named (symbols (snd u))"
    by (auto simp: named_extract_unit)
  show "\<forall>n te. typeMap g n = Some te \<longrightarrow> n \<noteq> [] \<and> name (te_symbol te) = n"
    using typeMap_entry_named [OF g nm] by blast
  show "\<forall>n \<in> dom (byName (indexes g)). n \<noteq> []"
    using byName_key_named [OF g nm] by blast
  show "\<forall>kd. \<forall>n \<in> set (entries (byKind (indexes g)) kd). n \<noteq> []"
    using byKind_entry_named [OF g nm] by blast
  show "\<forall>r. \<forall>n \<in> set (entries (byFile (indexes g)) r). n \<noteq> []"
    using byFile_entry_named [OF g nm] by blast
next
  show "named (extractSymbols ast fp)" by (rule named_extractSymbols)
  show "named (extractObjCSymbols cast fp)" by (rule named_extractObjCSymbols)
  show "walk fp (SKNode k (Some []) i a t off l subs) s =
      walk fp (SKNode k None i a t off l subs) s"
    by (rule walk_empty_name)
  show "walk_objc fp (ClangNode ck (Some []) imp sp ps iface coff b e rt ty inner) s =
      walk_objc fp (ClangNode ck None imp sp ps iface coff b e rt ty inner) s"
    by (rule walk_objc_empty_name)
qed

theorem stored_names_are_non_empty_witness:
  "\<not> isl (init_swift_repo ''/r'' proto_units) \<and>
   typeMap (projr (init_swift_repo ''/r'' proto_units)) ''Foo'' \<noteq> None \<and>
   name (te_symbol (the (typeMap (projr (init_swift_repo ''/r'' proto_units)) ''Foo''))) = ''Foo'' \<and>
   entries (byKind (indexes (projr (init_swift_repo ''/r'' proto_units)))) Class =
     [''Base'', ''Foo'']"
proof -
  let ?g = "projr (init_swift_repo ''/r'' proto_units)"
  have ok: "init_swift_repo ''/r'' proto_units = Inr ?g"
    by (simp add: proto_units_def extract_eval build_eval)
  have tm: "typeMap ?g ''Foo'' \<noteq> None"
    by (simp add: proto_units_def extract_eval build_eval)
  have kd: "entries (byKind (indexes ?g)) Class = [''Base'', ''Foo'']"
    by (simp add: proto_units_def extract_eval build_eval)
  have "\<forall>n te. typeMap ?g n = Some te \<longrightarrow> n \<noteq> [] \<and> name (te_symbol te) = n"
    by (rule stored_names_are_non_empty
        [where repo = "''/r''" and units = proto_units and g = ?g,
          THEN conjunct2, THEN conjunct2, THEN conjunct2, THEN conjunct2, THEN mp, OF ok,
          THEN conjunct1])
  with tm have nm: "name (te_symbol (the (typeMap ?g ''Foo''))) = ''Foo''"
    by auto
  have "\<not> isl (init_swift_repo ''/r'' proto_units)"
    by (subst ok) simp
  with tm nm kd show ?thesis by blast
qed

section \<open>Units that reference a symbol\<close>

lemma usesSymbol_iff:
  "usesSymbol fws rel fd n \<longleftrightarrow> rel \<in> set fws \<or> mentions fd n"
  by (auto simp: usesSymbol_def mentions_def list_ex_iff)

lemma fold_scan_file:
  "fold (scan_file repo n sf fws) fs acc =
     (fst acc @
        concat (map (\<lambda>u. if getRelativePath repo (fst u) = sf then []
                          else map (\<lambda>ext. \<lparr>x_file = getRelativePath repo (fst u),
                                           conformances = inheritedTypes ext\<rparr>)
                                 (filter (\<lambda>ext. name ext = n) (extensions (symbols (snd u)))))
                    fs),
      snd acc @
        map (\<lambda>u. getRelativePath repo (fst u))
          (filter (\<lambda>u. getRelativePath repo (fst u) \<noteq> sf \<and>
                        usesSymbol fws (getRelativePath repo (fst u)) (snd u) n) fs))"
  by (induction fs arbitrary: acc) (simp_all add: scan_file_def Let_def)

lemma explain_symbol_Some:
  assumes "explain_symbol join g n = Inr (Some us)"
  obtains sym k where "findSymbol join g n = Inr (Found sym k)"
    and "us = \<lparr>inheritedBy =
                 map (\<lambda>e. \<lparr>i_name = fromSymbol e, i_file = e_from e\<rparr>)
                   (filter (\<lambda>e. toSymbol e = n) (edges g)),
               extendedIn = fst (fold (scan_file (repoPath g) n (file sym)
                 (map loc_file (filter (\<lambda>loc. loc_file loc \<noteq> file sym)
                    (entries (byName (indexes g)) n)))) (files g) ([], [])),
               referencedIn = snd (fold (scan_file (repoPath g) n (file sym)
                 (map loc_file (filter (\<lambda>loc. loc_file loc \<noteq> file sym)
                    (entries (byName (indexes g)) n)))) (files g) ([], []))\<rparr>"
proof -
  from assms obtain sym k where f: "findSymbol join g n = Inr (Found sym k)"
    by (auto simp: explain_symbol_def split: sum.splits resolved.splits)
  from assms f have ni: "\<forall>m. js_get (byName (indexes g)) n \<noteq> Inherited m"
    by (auto simp: explain_symbol_def split: js_val.splits)
  have locs: "(case js_get (byName (indexes g)) n of Own ls \<Rightarrow> ls | _ \<Rightarrow> []) =
      entries (byName (indexes g)) n"
    using ni by (auto simp: js_get_def entries_def split: option.splits)
  from assms f ni have "us = \<lparr>inheritedBy =
                 map (\<lambda>e. \<lparr>i_name = fromSymbol e, i_file = e_from e\<rparr>)
                   (filter (\<lambda>e. toSymbol e = n) (edges g)),
               extendedIn = fst (fold (scan_file (repoPath g) n (file sym)
                 (map loc_file (filter (\<lambda>loc. loc_file loc \<noteq> file sym)
                    (entries (byName (indexes g)) n)))) (files g) ([], [])),
               referencedIn = snd (fold (scan_file (repoPath g) n (file sym)
                 (map loc_file (filter (\<lambda>loc. loc_file loc \<noteq> file sym)
                    (entries (byName (indexes g)) n)))) (files g) ([], []))\<rparr>"
    unfolding locs [symmetric]
    by (cases "js_get (byName (indexes g)) n") (simp_all add: explain_symbol_def Let_def)
  with f show ?thesis by (rule that)
qed

lemma referencedIn_member:
  assumes r: "refs = map f (filter (\<lambda>u. f u \<noteq> d \<and> usesSymbol (map loc_file (filter (\<lambda>loc. loc_file loc \<noteq> d) locs)) (f u) (snd u) n) fs)"
  shows "U \<in> set refs \<longleftrightarrow>
     U \<noteq> d \<and> (\<exists>u \<in> set fs. f u = U \<and> ((\<exists>loc \<in> set locs. loc_file loc = U) \<or> mentions (snd u) n))"
proof
  assume "U \<in> set refs"
  then obtain u where u: "u \<in> set fs" "f u = U" "U \<noteq> d"
    and uses: "usesSymbol (map loc_file (filter (\<lambda>loc. loc_file loc \<noteq> d) locs)) U (snd u) n"
    unfolding r set_map set_filter by blast
  from uses have "(\<exists>loc \<in> set locs. loc_file loc = U) \<or> mentions (snd u) n"
    unfolding usesSymbol_iff set_map set_filter by blast
  with u show "U \<noteq> d \<and> (\<exists>u \<in> set fs. f u = U \<and> ((\<exists>loc \<in> set locs. loc_file loc = U) \<or> mentions (snd u) n))"
    by blast
next
  assume "U \<noteq> d \<and> (\<exists>u \<in> set fs. f u = U \<and> ((\<exists>loc \<in> set locs. loc_file loc = U) \<or> mentions (snd u) n))"
  then obtain u where u: "u \<in> set fs" "f u = U" "U \<noteq> d"
    and c: "(\<exists>loc \<in> set locs. loc_file loc = U) \<or> mentions (snd u) n"
    by blast
  from c u(3) have "usesSymbol (map loc_file (filter (\<lambda>loc. loc_file loc \<noteq> d) locs)) U (snd u) n"
    unfolding usesSymbol_iff set_map set_filter by blast
  with u show "U \<in> set refs"
    unfolding r set_map set_filter by blast
qed

text \<open>
  Claim C7, as stated, fails on the duplicates. A unit is listed under its relative path,
  once for each unit that qualifies, and two units can have the same relative path: in
  \<open>collide_units\<close> the units \<^verbatim>\<open>x./B.swift\<close> and \<^verbatim>\<open>xB.swift\<close> both inherit from
  \<^verbatim>\<open>Base\<close>, both are \<^verbatim>\<open>xB.swift\<close> relative to the project \<^verbatim>\<open>.\<close>, and
  \<^verbatim>\<open>referencedIn\<close> lists \<^verbatim>\<open>xB.swift\<close> twice.
\<close>

theorem referencedIn_lists_unit_twice:
  "explain_symbol join_here (projr (init_swift_repo ''.'' collide_units)) ''Base'' =
     Inr (Some \<lparr>inheritedBy = [\<lparr>i_name = ''Child'', i_file = ''xB.swift''\<rparr>,
                                \<lparr>i_name = ''Other'', i_file = ''xB.swift''\<rparr>],
                 extendedIn = [],
                 referencedIn = [''xB.swift'', ''xB.swift'']\<rparr>) \<and>
   \<not> distinct [''xB.swift'', ''xB.swift'']"
  by (simp add: collide_units_def extract_eval build_eval query_eval join_here_def image_iff)

text \<open>
  Claim C7, amended. When \<open>N\<close> resolves to a symbol of unit \<open>D\<close>, a unit identifier \<open>U\<close>
  is in \<^verbatim>\<open>referencedIn\<close> if and only if \<open>U \<noteq> D\<close> and \<open>U\<close> identifies a unit of the graph
  for which \<^verbatim>\<open>byName[N]\<close> records a location in \<open>U\<close> or in which some symbol has the type
  name \<open>N\<close> or has \<open>N\<close> among its inherited types. \<open>D\<close> is never in the list, and the list
  has no duplicates when the units have pairwise distinct relative paths.
\<close>

theorem referencedIn_characterised:
  assumes "explain_symbol join g n = Inr (Some us)"
  shows "\<exists>sym k. findSymbol join g n = Inr (Found sym k) \<and>
           (\<forall>U. U \<in> set (referencedIn us) \<longleftrightarrow>
              U \<noteq> file sym \<and>
              (\<exists>u \<in> set (files g). unit_id g u = U \<and>
                 ((\<exists>loc \<in> set (entries (byName (indexes g)) n). loc_file loc = U) \<or>
                  mentions (snd u) n))) \<and>
           file sym \<notin> set (referencedIn us) \<and>
           (distinct (map (unit_id g) (files g)) \<longrightarrow> distinct (referencedIn us))"
proof -
  from assms obtain sym k where f: "findSymbol join g n = Inr (Found sym k)"
    and us: "referencedIn us = snd (fold (scan_file (repoPath g) n (file sym)
                 (map loc_file (filter (\<lambda>loc. loc_file loc \<noteq> file sym)
                    (entries (byName (indexes g)) n)))) (files g) ([], []))"
    by (rule explain_symbol_Some) simp
  have r: "referencedIn us = map (unit_id g)
      (filter (\<lambda>u. unit_id g u \<noteq> file sym \<and>
         usesSymbol (map loc_file (filter (\<lambda>loc. loc_file loc \<noteq> file sym)
                    (entries (byName (indexes g)) n))) (unit_id g u) (snd u) n) (files g))"
    unfolding us fold_scan_file unit_id_def by simp
  have 1: "\<forall>U. U \<in> set (referencedIn us) \<longleftrightarrow>
              U \<noteq> file sym \<and>
              (\<exists>u \<in> set (files g). unit_id g u = U \<and>
                 ((\<exists>loc \<in> set (entries (byName (indexes g)) n). loc_file loc = U) \<or>
                  mentions (snd u) n))"
    using referencedIn_member [OF r] by blast
  have 2: "file sym \<notin> set (referencedIn us)"
    using 1 by blast
  have 3: "distinct (map (unit_id g) (files g)) \<longrightarrow> distinct (referencedIn us)"
    unfolding r by (simp add: distinct_map_filter)
  from f 1 2 3 show ?thesis by blast
qed

theorem referencedIn_characterised_witness:
  "explain_symbol join_paths (projr (init_swift_repo ''/r'' usage_units)) ''Base'' =
     Inr (Some \<lparr>inheritedBy = [\<lparr>i_name = ''Child'', i_file = ''B.swift''\<rparr>],
                 extendedIn = [],
                 referencedIn = [''B.swift'', ''C.swift'']\<rparr>) \<and>
   ''A.swift'' \<notin> set [''B.swift'', ''C.swift''] \<and>
   distinct [''B.swift'', ''C.swift'']"
proof -
  let ?g = "projr (init_swift_repo ''/r'' usage_units)"
  let ?us = "\<lparr>inheritedBy = [\<lparr>i_name = ''Child'', i_file = ''B.swift''\<rparr>],
                 extendedIn = [],
                 referencedIn = [''B.swift'', ''C.swift'']\<rparr>"
  have ok: "explain_symbol join_paths ?g ''Base'' = Inr (Some ?us)"
    by (simp add: usage_units_def extract_eval build_eval query_eval image_iff)
  have f: "findSymbol join_paths ?g ''Base'' =
      Inr (Found \<lparr>name = ''Base'', kind = ''source.lang.swift.decl.class'', file = ''A.swift'',
        inheritedTypes = [], accessibility = None, typeName = None, offset = None, len = None,
        extendedType = None\<rparr> Class)"
    by (simp add: usage_units_def extract_eval build_eval query_eval)
  have d: "distinct (map (unit_id ?g) (files ?g))"
    by (simp add: usage_units_def extract_eval build_eval unit_id_def)
  from referencedIn_characterised [OF ok] f d
  have "''A.swift'' \<notin> set (referencedIn ?us) \<and> distinct (referencedIn ?us)"
    by auto
  with ok show ?thesis by simp
qed

section \<open>The buckets of a Shape B unit in declaration order\<close>

lemma walk_objc_step:
  "walk_objc fp node s =
     fold (walk_objc fp) (if skips_children node then [] else cl_inner node) (objc_push fp node s)"
proof (cases node)
  case (ClangNode k n imp sp ps iface off b e rt ty inner)
  show ?thesis
  proof (cases "truthy n \<and> \<not> imp")
    case False
    then show ?thesis
      unfolding ClangNode
      by (auto simp: objc_push_def objc_bucket_def skips_children_def Let_def)
  next
    case True
    then have t: "truthy n" "\<not> imp" by simp_all
    consider (cls) "k = Some ''ObjCInterfaceDecl''" | (prt) "k = Some ''ObjCProtocolDecl''"
      | (cat) "k = Some ''ObjCCategoryDecl''"
      | (other) "k \<noteq> Some ''ObjCInterfaceDecl''" "k \<noteq> Some ''ObjCProtocolDecl''"
          "k \<noteq> Some ''ObjCCategoryDecl''"
      by blast
    then show ?thesis
    proof cases
      case cls
      with t show ?thesis
        unfolding ClangNode
        by (simp add: objc_push_def objc_bucket_def objc_entry_def skips_children_def Let_def)
    next
      case prt
      with t show ?thesis
        unfolding ClangNode
        by (simp add: objc_push_def objc_bucket_def objc_entry_def skips_children_def Let_def)
    next
      case cat
      with t show ?thesis
        unfolding ClangNode
        by (simp add: objc_push_def objc_bucket_def objc_entry_def skips_children_def Let_def)
    next
      case other
      with t show ?thesis
        unfolding ClangNode
        by (simp add: objc_push_def objc_bucket_def objc_entry_def skips_children_def Let_def)
    qed
  qed
qed

text \<open>A walk that handles a node and then its children, unless it skips them.\<close>

lemma fold_visited:
  assumes step: "\<And>node s.
    w node s = fold w (if skips_children node then [] else cl_inner node) (f node s)"
  shows "w node s = fold f (visited node) s"
proof (induction node arbitrary: s)
  case (ClangNode k n imp sp ps iface off b e rt ty inner)
  let ?node = "ClangNode k n imp sp ps iface off b e rt ty inner"
  have kids: "fold w inner s' = fold f (concat (map visited inner)) s'" for s'
    using ClangNode.IH by (induction inner arbitrary: s') simp_all
  show ?case
  proof (cases "skips_children ?node")
    case True
    then show ?thesis by (subst step) simp
  next
    case False
    then show ?thesis by (subst step) (simp add: kids)
  qed
qed

lemma walk_objc_visited: "walk_objc fp node s = fold (objc_push fp) (visited node) s"
  by (rule fold_visited) (rule walk_objc_step)

lemma get_objc_push:
  "get b (objc_push fp n s) =
     get b s @ (if objc_bucket n = Some b then [objc_entry fp n] else [])"
proof (cases "objc_bucket n")
  case None
  then show ?thesis by (simp add: objc_push_def)
next
  case (Some b')
  then have "b' = B_classes \<or> b' = B_protocols \<or> b' = B_extensions"
    by (auto simp: objc_bucket_def split: if_splits)
  with Some show ?thesis
    by (cases b) (auto simp: objc_push_def get_def)
qed

lemma get_fold_objc_push:
  "get b (fold (objc_push fp) ns s) =
     get b s @ map (objc_entry fp) (filter (\<lambda>n. objc_bucket n = Some b) ns)"
  by (induction ns arbitrary: s) (simp_all add: get_objc_push)

lemma get_extractObjCSymbols:
  "get b (extractObjCSymbols ast fp) =
     map (objc_entry fp) (filter (\<lambda>n. objc_bucket n = Some b) (visited ast))"
proof -
  have "get b no_symbols = []"
    by (cases b) (simp_all add: get_def no_symbols_def)
  then show ?thesis
    by (simp add: extractObjCSymbols_def walk_objc_visited get_fold_objc_push)
qed

section \<open>Search\<close>

lemma of_kind_get: "of_kind k syms = get (kind_bucket k) syms"
  by (cases k) (simp_all add: of_kind_def get_def kind_bucket_def)

lemma search_file_grouped:
  "search_file lower repo q ty u =
     concat (map (\<lambda>k. add_results lower q (getRelativePath repo (fst u))
                          (of_kind k (symbols (snd u))) k)
               (filter (\<lambda>k. ty = None \<or> ty = Some k) search_order))"
  by (cases ty) (auto simp: search_file_def search_order_def of_kind_def Let_def)

text \<open>
  Claim C8, as stated, fails on the order: \<open>users_ast\<close> declares \<^verbatim>\<open>UserRecord\<close>,
  \<^verbatim>\<open>UserManager\<close>, \<^verbatim>\<open>loadUser()\<close> and \<^verbatim>\<open>UserViewModel\<close> in this order, and the search
  returns the two classes first, then the struct, then the function. All names and the
  query are ASCII.
\<close>

theorem search_not_in_declaration_order:
  "map (\<lambda>n. or_empty (key_name n)) (filter (\<lambda>n. node_bucket n \<noteq> None) (preorder users_ast)) =
     [''UserRecord'', ''UserManager'', ''loadUser()'', ''UserViewModel''] \<and>
   map r_name
     (search_symbols ascii_lower (projr (init_swift_repo ''/r'' search_units)) ''user'' None) =
     [''UserManager'', ''UserViewModel'', ''UserRecord'', ''loadUser()'', ''UserRole'']"
  by (simp add: search_units_def users_ast_def extract_eval build_eval search_symbols_def
      search_file_def add_results_def ascii_lower_def ascii_lower_char_def node_bucket_def
      first_match_def priority_def)

text \<open>
  Claim C8, amended. For every lower-casing function, \<open>search(Q, K)\<close> returns exactly the
  symbols of the class, struct, protocol, function and enum buckets whose lower-cased name
  contains the lower-cased \<open>Q\<close>, restricted to the bucket of \<open>K\<close> when \<open>K\<close> is given. The
  result is ordered by unit, within a unit by bucket in the order class, struct, protocol,
  function, enum, and within a bucket by the bucket's own order, which is the declaration
  order of the symbols of that bucket: for a Shape A unit the order in which the tree lists
  the nodes of that bucket, for a Shape B unit the order in which the tree lists its class
  nodes and its protocol nodes.
\<close>

theorem search_grouped_by_bucket:
  "search_symbols lower g query ty =
     concat (map (\<lambda>u.
       concat (map (\<lambda>k.
         map (\<lambda>s. \<lparr>r_name = name s, r_kind = k, r_file = unit_id g u,
                    r_inherited = inheritedTypes s\<rparr>)
           (filter (matches lower query) (of_kind k (symbols (snd u)))))
         (filter (\<lambda>k. ty = None \<or> ty = Some k) search_order)))
       (files g)) \<and>
   of_kind k (extractSymbols ast fp) =
     map (node_entry fp (kind_bucket k))
       (filter (\<lambda>n. node_bucket n = Some (kind_bucket k)) (preorder ast)) \<and>
   of_kind k (extractObjCSymbols cast fp) =
     map (objc_entry fp)
       (filter (\<lambda>n. objc_bucket n = Some (kind_bucket k)) (visited cast))"
proof (intro conjI)
  have "search_file lower (repoPath g) (lower query) ty =
      (\<lambda>u. concat (map (\<lambda>k.
         map (\<lambda>s. \<lparr>r_name = name s, r_kind = k, r_file = unit_id g u,
                    r_inherited = inheritedTypes s\<rparr>)
           (filter (matches lower query) (of_kind k (symbols (snd u)))))
         (filter (\<lambda>k. ty = None \<or> ty = Some k) search_order)))"
    by (rule ext) (simp add: search_file_grouped add_results_def matches_def [abs_def] unit_id_def)
  then show "search_symbols lower g query ty =
     concat (map (\<lambda>u.
       concat (map (\<lambda>k.
         map (\<lambda>s. \<lparr>r_name = name s, r_kind = k, r_file = unit_id g u,
                    r_inherited = inheritedTypes s\<rparr>)
           (filter (matches lower query) (of_kind k (symbols (snd u)))))
         (filter (\<lambda>k. ty = None \<or> ty = Some k) search_order)))
       (files g))"
    by (simp add: search_symbols_def)
  show "of_kind k (extractSymbols ast fp) =
     map (node_entry fp (kind_bucket k))
       (filter (\<lambda>n. node_bucket n = Some (kind_bucket k)) (preorder ast))"
    by (simp add: of_kind_get get_extractSymbols)
  show "of_kind k (extractObjCSymbols cast fp) =
     map (objc_entry fp)
       (filter (\<lambda>n. objc_bucket n = Some (kind_bucket k)) (visited cast))"
    by (simp add: of_kind_get get_extractObjCSymbols)
qed

theorem search_grouped_by_bucket_witness:
  "map r_name
     (search_symbols ascii_lower (projr (init_swift_repo ''/r'' search_units)) ''user''
        (Some Class)) =
     [''UserManager'', ''UserViewModel''] \<and>
   map r_name
     (search_symbols ascii_lower (projr (init_swift_repo ''/r'' search_units)) ''USER'' None) =
     [''UserManager'', ''UserViewModel'', ''UserRecord'', ''loadUser()'', ''UserRole''] \<and>
   map name (of_kind Class (extractObjCSymbols objc_users_ast ''/r/Users.h'')) =
     [''UserStore'', ''UserCache'']"
proof -
  let ?g = "projr (init_swift_repo ''/r'' search_units)"
  have fs: "files ?g = map extract_unit search_units" and rp: "repoPath ?g = ''/r''"
    by (simp_all add: search_units_def users_ast_def extract_eval build_eval)
  have a: "map r_name (search_symbols ascii_lower ?g ''user'' (Some Class)) =
      [''UserManager'', ''UserViewModel'']"
    unfolding search_grouped_by_bucket [THEN conjunct1] fs
    by (simp add: rp search_units_def users_ast_def extract_eval search_order_def of_kind_def
        matches_def ascii_lower_def ascii_lower_char_def unit_id_def)
  have b: "map r_name (search_symbols ascii_lower ?g ''USER'' None) =
      [''UserManager'', ''UserViewModel'', ''UserRecord'', ''loadUser()'', ''UserRole'']"
    unfolding search_grouped_by_bucket [THEN conjunct1] fs
    by (simp add: rp search_units_def users_ast_def extract_eval search_order_def of_kind_def
        matches_def ascii_lower_def ascii_lower_char_def unit_id_def)
  have c: "map name (of_kind Class (extractObjCSymbols objc_users_ast ''/r/Users.h'')) =
      [''UserStore'', ''UserCache'']"
    unfolding search_grouped_by_bucket [THEN conjunct2, THEN conjunct2]
    by (simp add: objc_users_ast_def cl_decl_def cl_root_def kind_bucket_def objc_bucket_def
        objc_entry_def objc_info_def skips_children_def truthy_def or_empty_def)
  from a b c show ?thesis by simp
qed

section \<open>When construction raises\<close>

text \<open>
  Construction raises exactly when a symbol of an indexed bucket is named like a member of
  \<^verbatim>\<open>Object.prototype\<close>; duplicates of a name never make it raise.
\<close>

lemma index_symbol_isl:
  "isl (index_symbol rel k s idx) \<longleftrightarrow>
     byName idx (name s) = None \<and> object_prototype (name s) \<noteq> None"
  by (auto simp: index_symbol_def js_get_def split: option.splits)

lemma index_symbol_clean:
  assumes "clean idx" and "index_symbol rel k s idx = Inr idx'"
  shows "clean idx'" and "object_prototype (name s) = None"
proof -
  from assms(2) have "\<not> isl (index_symbol rel k s idx)" by simp
  then have "byName idx (name s) \<noteq> None \<or> object_prototype (name s) = None"
    by (simp add: index_symbol_isl)
  with assms(1) show ok: "object_prototype (name s) = None"
    by (auto simp: clean_def)
  with assms(1) show "clean idx'"
    unfolding clean_def index_symbol_dom [OF assms(2)] by simp
qed

lemma index_symbol_isl_clean:
  "clean idx \<Longrightarrow> isl (index_symbol rel k s idx) \<longleftrightarrow> object_prototype (name s) \<noteq> None"
  by (auto simp: index_symbol_isl clean_def dom_def)

lemma index_all_clean:
  assumes "clean idx"
  shows "(isl (index_all rel k syms idx) \<longleftrightarrow> (\<exists>s \<in> set syms. object_prototype (name s) \<noteq> None)) \<and>
         (\<forall>idx'. index_all rel k syms idx = Inr idx' \<longrightarrow> clean idx')"
  using assms
proof (induction syms arbitrary: idx)
  case Nil
  then show ?case by simp
next
  case (Cons s syms)
  show ?case
  proof (cases "index_symbol rel k s idx")
    case (Inl e)
    then have "isl (index_symbol rel k s idx)" by simp
    then have "object_prototype (name s) \<noteq> None"
      by (simp add: index_symbol_isl_clean [OF Cons.prems])
    with Inl show ?thesis by simp
  next
    case (Inr i1)
    from index_symbol_clean [OF Cons.prems Inr]
    have c: "clean i1" and ok: "object_prototype (name s) = None" by simp_all
    from Cons.IH [OF c] Inr ok show ?thesis by simp
  qed
qed

lemma processSymbols_clean:
  assumes "clean idx"
  shows "(isl (processSymbols rel syms k idx) \<longleftrightarrow> (\<exists>s \<in> set syms. object_prototype (name s) \<noteq> None)) \<and>
         (\<forall>idx'. processSymbols rel syms k idx = Inr idx' \<longrightarrow> clean idx')"
proof -
  have "clean (if byKind idx k = None then idx\<lparr>byKind := (byKind idx)(k \<mapsto> [])\<rparr> else idx)"
    using assms by (simp add: clean_def)
  from index_all_clean [OF this] show ?thesis by (simp add: processSymbols_def)
qed

lemma index_file_clean:
  assumes "clean idx"
  shows "(isl (index_file repo u idx) \<longleftrightarrow>
            (\<exists>n \<in> set (indexed_names (symbols (snd u))). object_prototype n \<noteq> None)) \<and>
         (\<forall>idx'. index_file repo u idx = Inr idx' \<longrightarrow> clean idx')"
proof -
  let ?rel = "getRelativePath repo (fst u)"
  let ?syms = "symbols (snd u)"
  let ?i0 = "idx\<lparr>byFile := (byFile idx)(?rel \<mapsto> [])\<rparr>"
  have c0: "clean ?i0" using assms by (simp add: clean_def)
  note p1 = processSymbols_clean [OF c0, of ?rel "classes ?syms" Class]
  show ?thesis
  proof (cases "processSymbols ?rel (classes ?syms) Class ?i0")
    case (Inl e)
    with p1 show ?thesis
      by (auto simp: index_file_def and_then_def Let_def indexed_names_def index_order_def of_kind_def)
  next
    case i1: (Inr i1)
    with p1 have n1: "\<forall>s \<in> set (classes ?syms). object_prototype (name s) = None" and c1: "clean i1"
      by auto
    note p2 = processSymbols_clean [OF c1, of ?rel "structs ?syms" Struct]
    show ?thesis
    proof (cases "processSymbols ?rel (structs ?syms) Struct i1")
      case (Inl e)
      with p2 i1 show ?thesis
        by (auto simp: index_file_def and_then_def Let_def indexed_names_def index_order_def of_kind_def)
    next
      case i2: (Inr i2)
      with p2 have n2: "\<forall>s \<in> set (structs ?syms). object_prototype (name s) = None" and c2: "clean i2"
        by auto
      note p3 = processSymbols_clean [OF c2, of ?rel "protocols ?syms" Protocol]
      show ?thesis
      proof (cases "processSymbols ?rel (protocols ?syms) Protocol i2")
        case (Inl e)
        with p3 i1 i2 show ?thesis
          by (auto simp: index_file_def and_then_def Let_def indexed_names_def index_order_def of_kind_def)
      next
        case i3: (Inr i3)
        with p3 have n3: "\<forall>s \<in> set (protocols ?syms). object_prototype (name s) = None" and c3: "clean i3"
          by auto
        note p4 = processSymbols_clean [OF c3, of ?rel "enums ?syms" Enum]
        show ?thesis
        proof (cases "processSymbols ?rel (enums ?syms) Enum i3")
          case (Inl e)
          with p4 i1 i2 i3 show ?thesis
            by (auto simp: index_file_def and_then_def Let_def indexed_names_def index_order_def of_kind_def)
        next
          case i4: (Inr i4)
          with p4 have n4: "\<forall>s \<in> set (enums ?syms). object_prototype (name s) = None" and c4: "clean i4"
            by auto
          note p5 = processSymbols_clean [OF c4, of ?rel "functions ?syms" Function]
          have eq: "index_file repo u idx = processSymbols ?rel (functions ?syms) Function i4"
            using i1 i2 i3 i4 by (simp add: index_file_def and_then_def Let_def)
          have "(\<exists>n \<in> set (indexed_names ?syms). object_prototype n \<noteq> None) \<longleftrightarrow>
              (\<exists>s \<in> set (functions ?syms). object_prototype (name s) \<noteq> None)"
            using n1 n2 n3 n4
            by (auto simp: indexed_names_def index_order_def of_kind_def)
          with p5 show ?thesis unfolding eq by simp
        qed
      qed
    qed
  qed
qed

lemma index_files_clean:
  assumes "clean idx"
  shows "isl (index_files repo fs idx) \<longleftrightarrow>
     (\<exists>u \<in> set fs. \<exists>n \<in> set (indexed_names (symbols (snd u))). object_prototype n \<noteq> None)"
  using assms
proof (induction fs arbitrary: idx)
  case Nil
  then show ?case by simp
next
  case (Cons u fs)
  show ?case
  proof (cases "index_file repo u idx")
    case (Inl e)
    with index_file_clean [OF Cons.prems, of repo u] show ?thesis by auto
  next
    case (Inr i1)
    with index_file_clean [OF Cons.prems, of repo u]
    have ok: "\<forall>n \<in> set (indexed_names (symbols (snd u))). object_prototype n = None"
      and c: "clean i1" by auto
    from Cons.IH [OF c] Inr ok show ?thesis by simp
  qed
qed

lemma build_graph_raises_iff:
  "isl (build_graph repo fs) \<longleftrightarrow>
     (\<exists>u \<in> set fs. \<exists>n \<in> set (indexed_names (symbols (snd u))). object_prototype n \<noteq> None)"
proof -
  have "clean no_indexes" by (simp add: clean_def no_indexes_def)
  from index_files_clean [OF this, of repo fs] show ?thesis
    by (auto simp: build_graph_def Let_def split: sum.splits)
qed


section \<open>Duplicate type names\<close>

text \<open>
  For a name that every object inherits the construction raises: \<^verbatim>\<open>byName[name]\<close> is
  the inherited member, which is truthy and has no \<^verbatim>\<open>push\<close>.
\<close>

lemma duplicate_constructor_raises: "init_swift_repo ''/r'' constructor_units = Inl TypeError"
  by (simp add: constructor_units_def extract_eval build_eval)

lemma length_concat_at_most_one:
  assumes "\<forall>x \<in> set xs. length (f x) \<le> 1"
  shows "length (concat (map f xs)) = length (filter (\<lambda>x. f x \<noteq> []) xs)"
  using assms
proof (induction xs)
  case Nil
  show ?case by simp
next
  case (Cons x xs)
  then have "length (f x) \<le> 1" by simp
  then have "length (f x) = (if f x \<noteq> [] then 1 else 0)"
    by (cases "f x") simp_all
  with Cons show ?case by simp
qed

text \<open>
  Claim C2, as stated, fails on the number of entries: of the two declaring units of
  \<open>nested_units\<close> the first declares \<^verbatim>\<open>Foo\<close> twice, as a class and as a nested struct,
  and \<^verbatim>\<open>byName["Foo"]\<close> holds three locations, two of them in \<^verbatim>\<open>A.swift\<close>.
\<close>

theorem two_units_three_locations:
  "\<not> isl (init_swift_repo ''/r'' nested_units) \<and>
   entries (byName (indexes (projr (init_swift_repo ''/r'' nested_units)))) ''Foo'' =
     [\<lparr>loc_file = ''A.swift'', loc_kind = Class\<rparr>, \<lparr>loc_file = ''A.swift'', loc_kind = Struct\<rparr>,
      \<lparr>loc_file = ''B.swift'', loc_kind = Class\<rparr>]"
  by (simp add: nested_units_def extract_eval build_eval)

text \<open>
  Claim C2, amended. Let two units \<open>u1\<close> and \<open>u2\<close>, processed in this order, each declare a
  class, struct, protocol or enum named \<open>n\<close>, let no unit after \<open>u2\<close> do so, and let no
  indexed symbol of any unit be named like a member that every object inherits. Then the
  construction raises no error, the type map entry of \<open>n\<close> is the last one that \<open>u2\<close>
  stores, with the file of \<open>u2\<close>, and \<^verbatim>\<open>byName[n]\<close> holds one location per declaration
  of \<open>n\<close> in the class, struct, protocol, enum and function buckets of all units, in
  processing order: at least two, and exactly one per declaring unit when no unit declares
  \<open>n\<close> more than once.
\<close>

theorem last_unit_wins:
  assumes "fs = pre @ u1 # mid @ u2 # post"
    and "type_entries repo u1 n \<noteq> []"
    and "type_entries repo u2 n \<noteq> []"
    and "\<forall>u \<in> set post. type_entries repo u n = []"
    and "\<forall>u \<in> set fs. \<forall>m \<in> set (indexed_names (symbols (snd u))). object_prototype m = None"
  shows "\<exists>g. build_graph repo fs = Inr g \<and>
           typeMap g n = Some (last (type_entries repo u2 n)) \<and>
           te_file (last (type_entries repo u2 n)) = getRelativePath repo (fst u2) \<and>
           entries (byName (indexes g)) n = concat (map (\<lambda>u. name_locations repo u n) fs) \<and>
           2 \<le> length (entries (byName (indexes g)) n) \<and>
           ((\<forall>u \<in> set fs. length (name_locations repo u n) \<le> 1) \<longrightarrow>
              length (entries (byName (indexes g)) n) =
                length (filter (\<lambda>u. name_locations repo u n \<noteq> []) fs))"
proof -
  from assms(5) have "\<not> isl (build_graph repo fs)"
    by (simp add: build_graph_raises_iff)
  then obtain g where g: "build_graph repo fs = Inr g"
    by (cases "build_graph repo fs") simp_all
  have post: "concat (map (\<lambda>u. type_entries repo u n) post) = []"
    using assms(4) by simp
  have tm: "typeMap g n = Some (last (type_entries repo u2 n))"
    using assms(3) post
    by (simp add: build_graph_fields(1) [OF g] build_typeMap_apply assms(1) last_wins_def)
  have tf: "te_file (last (type_entries repo u2 n)) = getRelativePath repo (fst u2)"
    using assms(3) by (intro type_entries_file [where n = n]) simp
  have byName: "entries (byName (indexes g)) n = concat (map (\<lambda>u. name_locations repo u n) fs)"
    using index_files_byName [OF build_graph_fields(5) [OF g]] by simp
  have "1 \<le> length (name_locations repo u1 n)" "1 \<le> length (name_locations repo u2 n)"
    using assms(2,3) by (simp_all add: Suc_le_eq name_locations_declared)
  then have two: "2 \<le> length (entries (byName (indexes g)) n)"
    unfolding byName assms(1) by simp
  have once: "(\<forall>u \<in> set fs. length (name_locations repo u n) \<le> 1) \<longrightarrow>
      length (entries (byName (indexes g)) n) =
        length (filter (\<lambda>u. name_locations repo u n \<noteq> []) fs)"
    unfolding byName by (intro impI length_concat_at_most_one)
  from g tm tf byName two once show ?thesis by blast
qed

theorem last_unit_wins_witness:
  "typeMap (projr (init_swift_repo ''/r'' duplicate_units)) ''Foo'' =
     Some \<lparr>te_file = ''B.swift'', te_kind = Class,
            te_symbol = \<lparr>name = ''Foo'', kind = ''source.lang.swift.decl.class'',
              file = ''/r/B.swift'', inheritedTypes = [], accessibility = None, typeName = None,
              offset = None, len = None, extendedType = None\<rparr>\<rparr> \<and>
   entries (byName (indexes (projr (init_swift_repo ''/r'' duplicate_units)))) ''Foo'' =
     [\<lparr>loc_file = ''A.swift'', loc_kind = Class\<rparr>, \<lparr>loc_file = ''B.swift'', loc_kind = Class\<rparr>] \<and>
   length (entries (byName (indexes (projr (init_swift_repo ''/r'' duplicate_units)))) ''Foo'') =
     length duplicate_units"
proof -
  let ?fs = "map extract_unit duplicate_units"
  have split: "?fs =
      [] @ extract_unit (duplicate_units ! 0) # [] @ extract_unit (duplicate_units ! 1) # []"
    by (simp add: duplicate_units_def)
  have d1: "type_entries ''/r'' (extract_unit (duplicate_units ! 0)) ''Foo'' \<noteq> []"
    by (simp add: duplicate_units_def type_entries_def extract_eval)
  have d2: "type_entries ''/r'' (extract_unit (duplicate_units ! 1)) ''Foo'' \<noteq> []"
    by (simp add: duplicate_units_def type_entries_def extract_eval)
  have post: "\<forall>u \<in> set []. type_entries ''/r'' u ''Foo'' = []"
    by simp
  have names: "\<forall>u \<in> set ?fs. \<forall>m \<in> set (indexed_names (symbols (snd u))).
      object_prototype m = None"
    by (simp add: duplicate_units_def indexed_names_def index_order_def of_kind_def
        object_prototype_def extract_eval)
  have once: "\<forall>u \<in> set ?fs. length (name_locations ''/r'' u ''Foo'') \<le> 1"
    by (simp add: duplicate_units_def name_locations_def index_order_def of_kind_def
        extract_eval)
  have declaring: "filter (\<lambda>u. name_locations ''/r'' u ''Foo'' \<noteq> []) ?fs = ?fs"
    by (simp add: duplicate_units_def name_locations_def index_order_def of_kind_def
        extract_eval)
  from last_unit_wins [OF split d1 d2 post names] obtain g
    where g: "build_graph ''/r'' ?fs = Inr g"
      and tm: "typeMap g ''Foo'' =
        Some (last (type_entries ''/r'' (extract_unit (duplicate_units ! 1)) ''Foo''))"
      and bn: "entries (byName (indexes g)) ''Foo'' =
        concat (map (\<lambda>u. name_locations ''/r'' u ''Foo'') ?fs)"
      and len: "(\<forall>u \<in> set ?fs. length (name_locations ''/r'' u ''Foo'') \<le> 1) \<longrightarrow>
        length (entries (byName (indexes g)) ''Foo'') =
          length (filter (\<lambda>u. name_locations ''/r'' u ''Foo'' \<noteq> []) ?fs)"
    by blast
  from g have pg: "projr (init_swift_repo ''/r'' duplicate_units) = g"
    by (simp add: init_swift_repo_def)
  from len once have "length (entries (byName (indexes g)) ''Foo'') = length ?fs"
    unfolding declaring by blast
  then have l: "length (entries (byName (indexes g)) ''Foo'') = length duplicate_units"
    by simp
  have t: "typeMap g ''Foo'' =
     Some \<lparr>te_file = ''B.swift'', te_kind = Class,
            te_symbol = \<lparr>name = ''Foo'', kind = ''source.lang.swift.decl.class'',
              file = ''/r/B.swift'', inheritedTypes = [], accessibility = None, typeName = None,
              offset = None, len = None, extendedType = None\<rparr>\<rparr>"
    unfolding tm by (simp add: duplicate_units_def type_entries_def extract_eval)
  have b: "entries (byName (indexes g)) ''Foo'' =
     [\<lparr>loc_file = ''A.swift'', loc_kind = Class\<rparr>, \<lparr>loc_file = ''B.swift'', loc_kind = Class\<rparr>]"
    unfolding bn
    by (simp add: duplicate_units_def name_locations_def index_order_def of_kind_def
        extract_eval)
  from t b l show ?thesis unfolding pg by simp
qed

section \<open>What holds for names that no object inherits\<close>

lemma edge_for_resolved:
  assumes "e \<in> set (edge_for tm rel symbol inherited)"
  shows "toSymbol e = inherited" and "e_from e = rel" and "fromSymbol e = name symbol"
    and "object_prototype inherited = None \<Longrightarrow>
           \<exists>t. tm inherited = Some t \<and> e_to e = Some (te_file t)"
  using assms
  by (auto simp: edge_for_def js_get_def split: option.splits js_val.splits)

lemma edges_resolved:
  assumes "build_graph repo fs = Inr g" and "e \<in> set (edges g)"
    and "object_prototype (toSymbol e) = None"
  shows "\<exists>t. typeMap g (toSymbol e) = Some t \<and> e_to e = Some (te_file t)"
proof -
  from assms(1,2) obtain rel symbol inherited where
    e: "e \<in> set (edge_for (typeMap g) rel symbol inherited)"
    by (auto simp: build_graph_fields(1,2) [OF assms(1)] build_edges_def file_edges_def Let_def)
  from edge_for_resolved(1) [OF e] edge_for_resolved(4) [OF e] assms(3) show ?thesis
    by simp
qed

lemma typeMap_fallback_own:
  "object_prototype n = None \<Longrightarrow>
   typeMap_fallback g n =
     (case typeMap g n of
        None \<Rightarrow> NotFound
      | Some t \<Rightarrow> Found ((te_symbol t)\<lparr>file := te_file t\<rparr>) (te_kind t))"
  by (simp add: typeMap_fallback_def js_get_def split: option.splits)

lemma findSymbol_own:
  assumes "object_prototype n = None"
  shows "findSymbol join g n =
     Inr (case entries (byName (indexes g)) n of
            [] \<Rightarrow> typeMap_fallback g n
          | match # rest \<Rightarrow>
              (case index_lookup join g n match of
                 Some r \<Rightarrow> r
               | None \<Rightarrow> typeMap_fallback g n))"
  using assms
  by (auto simp: findSymbol_def js_get_def entries_def split: option.splits list.splits)

lemma findSymbol_miss:
  assumes "object_prototype n = None" and "byName (indexes g) n = None" and "typeMap g n = None"
  shows "findSymbol join g n = Inr NotFound"
  using assms by (simp add: findSymbol_own typeMap_fallback_own entries_def)

lemma index_lookup_Found:
  "index_lookup join g n match = Some r \<Longrightarrow>
   \<exists>fd symbolList symbol.
     map_of (files g) (join (repoPath g) (loc_file match)) = Some fd \<and>
     bucket (symbols fd) (kindToPlural (loc_kind match)) = Some symbolList \<and>
     find (\<lambda>s. name s = n) symbolList = Some symbol \<and>
     r = Found (symbol\<lparr>file := loc_file match\<rparr>) (loc_kind match)"
  by (auto simp: index_lookup_def split: option.splits)

lemma findSymbol_NotFound_iff:
  assumes "object_prototype n = None"
  shows "findSymbol join g n = Inr NotFound \<longleftrightarrow>
     typeMap g n = None \<and>
     (case entries (byName (indexes g)) n of
        [] \<Rightarrow> True
      | match # rest \<Rightarrow> index_lookup join g n match = None)"
proof (cases "entries (byName (indexes g)) n")
  case Nil
  then show ?thesis
    by (simp add: findSymbol_own [OF assms] typeMap_fallback_own [OF assms]
        split: option.splits)
next
  case (Cons match rest)
  show ?thesis
  proof (cases "index_lookup join g n match")
    case None
    with Cons show ?thesis
      by (simp add: findSymbol_own [OF assms] typeMap_fallback_own [OF assms]
          split: option.splits)
  next
    case (Some r)
    from index_lookup_Found [OF Some] have "r \<noteq> NotFound" by auto
    with Cons Some show ?thesis
      by (simp add: findSymbol_own [OF assms])
  qed
qed

lemma extendedIn_characterised:
  assumes "explain_symbol join g n = Inr (Some us)"
  shows "\<exists>sym k. findSymbol join g n = Inr (Found sym k) \<and>
     extendedIn us =
       concat (map (\<lambda>u. if unit_id g u = file sym then []
                         else map (\<lambda>ext. \<lparr>x_file = unit_id g u,
                                          conformances = inheritedTypes ext\<rparr>)
                                (filter (\<lambda>ext. name ext = n) (extensions (symbols (snd u)))))
                   (files g))"
proof -
  from assms obtain sym k where f: "findSymbol join g n = Inr (Found sym k)"
    and us: "extendedIn us = fst (fold (scan_file (repoPath g) n (file sym)
                 (map loc_file (filter (\<lambda>loc. loc_file loc \<noteq> file sym)
                    (entries (byName (indexes g)) n)))) (files g) ([], []))"
    by (rule explain_symbol_Some) simp
  from f show ?thesis
    unfolding us fold_scan_file unit_id_def by auto
qed

section \<open>Member extraction\<close>

lemma find_append:
  "find P (xs @ ys) = (case find P xs of None \<Rightarrow> find P ys | Some x \<Rightarrow> Some x)"
  by (induction xs) simp_all

lemma find_members_preorder:
  "findAndExtractMembers ast nm =
     map_option (\<lambda>m. fold add_member (key_substructure m) no_members)
       (find (matched nm) (preorder ast))"
  "find_in_children cs nm =
     map_option (\<lambda>m. fold add_member (key_substructure m) no_members)
       (find (matched nm) (concat (map preorder cs)))"
proof (induction ast nm and cs nm rule: findAndExtractMembers_find_in_children.induct)
  case (1 k n i a t off l subs symbolName)
  show ?case
  proof (cases "truthy k \<and> truthy n \<and> n = Some symbolName")
    case True
    then have "truthy k" "truthy n" "n = Some symbolName" by blast+
    then have "matched symbolName (SKNode k n i a t off l subs)"
      by (simp add: matched_def)
    then show ?thesis by (simp add: if_P [OF True])
  next
    case False
    then have nm: "\<not> matched symbolName (SKNode k n i a t off l subs)"
      by (simp add: matched_def)
    have "findAndExtractMembers (SKNode k n i a t off l subs) symbolName =
        find_in_children subs symbolName"
      by (simp only: findAndExtractMembers.simps if_not_P [OF False])
    with "1.IH" [OF False] nm show ?thesis by simp
  qed
next
  case (2 symbolName)
  show ?case by simp
next
  case (3 c cs symbolName)
  then show ?case
    by (cases "find (matched symbolName) (preorder c)") (simp_all add: find_append)
qed

lemma fold_member_table:
  "fold (\<lambda>symbol memberData.
           case findAndExtractMembers ast (name symbol) of
             None \<Rightarrow> memberData
           | Some ms \<Rightarrow> js_set memberData (name symbol) ms) syms md n =
     (if n \<noteq> ''__proto__'' \<and> n \<in> name ` set syms \<and> findAndExtractMembers ast n \<noteq> None
      then findAndExtractMembers ast n else md n)"
  by (induction syms arbitrary: md) (auto simp: js_set_def split: option.splits)

lemma extractMemberData_apply:
  "extractMemberData ast syms n =
     (if n \<noteq> ''__proto__'' \<and>
         n \<in> name ` set (classes syms @ structs syms @ protocols syms @ enums syms)
      then findAndExtractMembers ast n else None)"
  unfolding extractMemberData_def fold_member_table by auto

lemma walk_objc_members_step:
  "walk_objc_members fp node md =
     fold (walk_objc_members fp) (if skips_children node then [] else cl_inner node)
       (member_assign fp node md)"
proof (cases node)
  case (ClangNode k n imp sp ps iface off b e rt ty inner)
  show ?thesis
  proof (cases "truthy n \<and> \<not> imp")
    case False
    then show ?thesis
      unfolding ClangNode
      by (auto simp: member_assign_def member_owner_def skips_children_def Let_def)
  next
    case True
    then have t: "truthy n" "\<not> imp" by simp_all
    then obtain nm where nm: "n = Some nm" by (cases n) (simp_all add: truthy_def)
    consider (cls) "k = Some ''ObjCInterfaceDecl''" | (prt) "k = Some ''ObjCProtocolDecl''"
      | (cat) "k = Some ''ObjCCategoryDecl''"
      | (other) "k \<noteq> Some ''ObjCInterfaceDecl''" "k \<noteq> Some ''ObjCProtocolDecl''"
          "k \<noteq> Some ''ObjCCategoryDecl''"
      by blast
    then show ?thesis
    proof cases
      case cls
      with t nm show ?thesis
        unfolding ClangNode
        by (simp add: member_assign_def member_owner_def members_of_def skips_children_def
            js_set_def or_empty_def Let_def)
    next
      case prt
      with t nm show ?thesis
        unfolding ClangNode
        by (simp add: member_assign_def member_owner_def members_of_def skips_children_def
            js_set_def or_empty_def Let_def)
    next
      case cat
      with t nm show ?thesis
        unfolding ClangNode
        by (simp add: member_assign_def member_owner_def members_of_def skips_children_def
            js_set_def or_empty_def Let_def)
    next
      case other
      with t nm show ?thesis
        unfolding ClangNode
        by (simp add: member_assign_def member_owner_def members_of_def skips_children_def
            js_set_def or_empty_def Let_def)
    qed
  qed
qed

lemma walk_objc_members_visited:
  "walk_objc_members fp node md = fold (member_assign fp) (visited node) md"
  by (rule fold_visited) (rule walk_objc_members_step)

lemma fold_member_assign:
  "fold (member_assign fp) ns md n =
     last_wins (map (members_of fp) (filter (\<lambda>m. member_owner m = Some n) ns)) (md n)"
proof (induction ns arbitrary: md)
  case Nil
  show ?case by (simp add: last_wins_def)
next
  case (Cons m ns)
  have "fold (member_assign fp) (m # ns) md n =
      fold (member_assign fp) ns (member_assign fp m md) n"
    by simp
  also have "\<dots> = last_wins (map (members_of fp) (filter (\<lambda>m. member_owner m = Some n) ns))
      (member_assign fp m md n)"
    by (rule Cons.IH)
  also have "member_assign fp m md n =
      last_wins (map (members_of fp) (filter (\<lambda>m. member_owner m = Some n) [m])) (md n)"
    by (cases "member_owner m") (simp_all add: member_assign_def last_wins_def)
  finally show ?case by (simp add: last_wins_append)
qed

lemma extractObjCMemberData_apply:
  "extractObjCMemberData ast fp n =
     last_wins (map (members_of fp) (filter (\<lambda>m. member_owner m = Some n) (visited ast))) None"
  by (simp add: extractObjCMemberData_def walk_objc_members_visited fold_member_assign)

text \<open>
  Claim C9. Shape A: the members extracted for a name are those of the first node in
  declaration order that carries both tags and this name, and the table of a unit holds
  them for the names of its classes, structs, protocols and enums; the initializers of
  that node are its function- or method-kind direct children whose name begins with
  \<^verbatim>\<open>init\<close>, its methods the other function- or method-kind direct children.
  Shape B: the table holds, for a name, the members of the last visited class or protocol
  node of this name; the initializers of a class node are its named method children called
  \<^verbatim>\<open>init\<close> or beginning with \<^verbatim>\<open>initWith\<close>, its methods are the other named method
  children, and a protocol node has no initializers: all its named method children are
  methods.
\<close>

theorem initializer_split:
  "findAndExtractMembers ast nm =
     map_option (\<lambda>m. fold add_member (key_substructure m) no_members)
       (find (matched nm) (preorder ast)) \<and>
   extractMemberData ast syms nm =
     (if nm \<noteq> ''__proto__'' \<and>
         nm \<in> name ` set (classes syms @ structs syms @ protocols syms @ enums syms)
      then findAndExtractMembers ast nm else None) \<and>
   map m_name (initializers (fold add_member subs no_members)) =
     map (\<lambda>m. or_empty (key_name m))
       (filter (\<lambda>m. (str_includes (or_empty (key_kind m)) ''function'' \<or>
                      str_includes (or_empty (key_kind m)) ''method'') \<and>
                     startsWith (or_empty (key_name m)) ''init'') subs) \<and>
   map m_name (methods (fold add_member subs no_members)) =
     map (\<lambda>m. or_empty (key_name m))
       (filter (\<lambda>m. (str_includes (or_empty (key_kind m)) ''function'' \<or>
                      str_includes (or_empty (key_kind m)) ''method'') \<and>
                     \<not> startsWith (or_empty (key_name m)) ''init'') subs) \<and>
   extractObjCMemberData cast filePath nm =
     last_wins (map (members_of filePath)
                  (filter (\<lambda>m. member_owner m = Some nm) (visited cast))) None \<and>
   map m_name (initializers (class_members filePath node)) =
     map (\<lambda>c. or_empty (cl_name c))
       (filter (\<lambda>c. cl_kind c = Some ''ObjCMethodDecl'' \<and> truthy (cl_name c) \<and>
                     (cl_name c = Some ''init'' \<or> startsWith (or_empty (cl_name c)) ''initWith''))
          (cl_inner node)) \<and>
   map m_name (methods (class_members filePath node)) =
     map (\<lambda>c. or_empty (cl_name c))
       (filter (\<lambda>c. cl_kind c = Some ''ObjCMethodDecl'' \<and> truthy (cl_name c) \<and>
                     \<not> (cl_name c = Some ''init'' \<or> startsWith (or_empty (cl_name c)) ''initWith''))
          (cl_inner node)) \<and>
   initializers (protocol_members filePath pnode) = [] \<and>
   map m_name (methods (protocol_members filePath pnode)) =
     map (\<lambda>c. or_empty (cl_name c))
       (filter (\<lambda>c. cl_kind c = Some ''ObjCMethodDecl'' \<and> truthy (cl_name c)) (cl_inner pnode))"
proof (intro conjI)
  show "findAndExtractMembers ast nm =
     map_option (\<lambda>m. fold add_member (key_substructure m) no_members)
       (find (matched nm) (preorder ast))"
    by (rule find_members_preorder)
  show "extractMemberData ast syms nm =
     (if nm \<noteq> ''__proto__'' \<and>
         nm \<in> name ` set (classes syms @ structs syms @ protocols syms @ enums syms)
      then findAndExtractMembers ast nm else None)"
    by (rule extractMemberData_apply)
  show "extractObjCMemberData cast filePath nm =
     last_wins (map (members_of filePath)
                  (filter (\<lambda>m. member_owner m = Some nm) (visited cast))) None"
    by (rule extractObjCMemberData_apply)
qed (simp_all add: fold_add_member_initializers fold_add_member_methods
      fold_add_class_member_initializers fold_add_class_member_methods
      fold_add_protocol_member_initializers fold_add_protocol_member_methods
      class_members_def protocol_members_def no_members_def)

text \<open>
  The same members \<^verbatim>\<open>initialize\<close>, \<^verbatim>\<open>initFromData\<close>, \<^verbatim>\<open>initWithName:\<close> and \<^verbatim>\<open>run\<close>
  in both dialects: the first three are initializers in Shape A, only the third one in
  Shape B, and none in the protocol.
\<close>

theorem initializer_split_witness:
  "map_option (\<lambda>ms. (map m_name (initializers ms), map m_name (methods ms)))
     (extractMemberData swift_members_ast (extractSymbols swift_members_ast ''/r/Foo.swift'')
        ''Foo'') =
     Some ([''initialize'', ''initFromData'', ''initWithName:''], [''run'']) \<and>
   map_option (\<lambda>ms. (map m_name (initializers ms), map m_name (methods ms)))
     (extractObjCMemberData objc_members_ast ''/r/Foo.h'' ''Foo'') =
     Some ([''initWithName:''], [''initialize'', ''initFromData'', ''run'']) \<and>
   map_option (\<lambda>ms. (map m_name (initializers ms), map m_name (methods ms)))
     (extractObjCMemberData objc_members_ast ''/r/Foo.h'' ''FooDelegate'') =
     Some ([], [''initWithName:''])"
proof -
  let ?foo = "sk_decl ''source.lang.swift.decl.class'' ''Foo'' []
        [sk_method ''initialize'', sk_method ''initFromData'', sk_method ''initWithName:'',
         sk_method ''run'']"
  let ?cfoo = "cl_container ''ObjCInterfaceDecl'' ''Foo''
        [cl_method ''initialize'', cl_method ''initFromData'', cl_method ''initWithName:'',
         cl_method ''run'']"
  let ?proto = "cl_container ''ObjCProtocolDecl'' ''FooDelegate'' [cl_method ''initWithName:'']"
  note split = initializer_split [of swift_members_ast "''Foo''"
      "extractSymbols swift_members_ast ''/r/Foo.swift''" "key_substructure ?foo"
      objc_members_ast "''/r/Foo.h''" ?cfoo ?proto]
  have found: "find (matched ''Foo'') (preorder swift_members_ast) = Some ?foo"
    by (simp add: swift_members_ast_def sk_root_def sk_decl_def sk_method_def matched_def
        truthy_def)
  have declared: "''Foo'' \<in> name ` set (classes (extractSymbols swift_members_ast ''/r/Foo.swift''))"
    by (simp add: swift_members_ast_def sk_method_def extract_eval image_iff)
  have a: "extractMemberData swift_members_ast
      (extractSymbols swift_members_ast ''/r/Foo.swift'') ''Foo'' =
      Some (fold add_member (key_substructure ?foo) no_members)"
    using split [THEN conjunct1] split [THEN conjunct2, THEN conjunct1] found declared
    by (simp add: image_Un)
  have owner: "filter (\<lambda>m. member_owner m = Some ''Foo'') (visited objc_members_ast) = [?cfoo]"
    by (simp add: objc_members_ast_def cl_root_def cl_container_def cl_method_def
        member_owner_def skips_children_def truthy_def)
  have owner': "filter (\<lambda>m. member_owner m = Some ''FooDelegate'') (visited objc_members_ast) =
      [?proto]"
    by (simp add: objc_members_ast_def cl_root_def cl_container_def cl_method_def
        member_owner_def skips_children_def truthy_def)
  have b: "extractObjCMemberData objc_members_ast ''/r/Foo.h'' ''Foo'' =
      Some (class_members ''/r/Foo.h'' ?cfoo)"
    unfolding split [THEN conjunct2, THEN conjunct2, THEN conjunct2, THEN conjunct2,
        THEN conjunct1] owner
    by (simp add: last_wins_def members_of_def cl_container_def)
  have c: "extractObjCMemberData objc_members_ast ''/r/Foo.h'' ''FooDelegate'' =
      Some (protocol_members ''/r/Foo.h'' ?proto)"
    unfolding initializer_split [where cast = objc_members_ast and nm = "''FooDelegate''",
        THEN conjunct2, THEN conjunct2, THEN conjunct2, THEN conjunct2, THEN conjunct1] owner'
    by (simp add: last_wins_def members_of_def cl_container_def)
  from split have
    "map m_name (initializers (fold add_member (key_substructure ?foo) no_members)) =
       [''initialize'', ''initFromData'', ''initWithName:'']"
    "map m_name (methods (fold add_member (key_substructure ?foo) no_members)) = [''run'']"
    "map m_name (initializers (class_members ''/r/Foo.h'' ?cfoo)) = [''initWithName:'']"
    "map m_name (methods (class_members ''/r/Foo.h'' ?cfoo)) =
       [''initialize'', ''initFromData'', ''run'']"
    "initializers (protocol_members ''/r/Foo.h'' ?proto) = []"
    "map m_name (methods (protocol_members ''/r/Foo.h'' ?proto)) = [''initWithName:'']"
    by (simp_all add: sk_decl_def sk_method_def cl_container_def cl_method_def
        str_includes_def sublist_Cons_right startsWith_def or_empty_def truthy_def)
  with a b c show ?thesis by simp
qed

end
